theory Spec2Isabelle
  imports Complex_Main
begin

section \<open>File Selector: \<open>readFilesRecursively\<close> (src/indexer.ts, lines 6-63)\<close>

subsection \<open>The two fixed sets\<close>

text \<open>
  \<open>ignoredDirs\<close> (lines 6-16) and \<open>allowedExtensions\<close> (lines 18-33) are JavaScript
  \<open>Set\<close>s of strings; \<open>Set.has\<close> is exact string equality. The commented-out entry
  \<open>'.json'\<close> of the source is not a member.
\<close>

definition ignoredDirs :: "string set" where
  "ignoredDirs =
     {''node_modules'', ''.git'', ''.vscode'', ''dist'', ''build'', ''coverage'',
      ''logs'', ''tmp'', ''temp''}"

definition allowedExtensions :: "string set" where
  "allowedExtensions =
     {''.ts'', ''.tsx'', ''.js'', ''.jsx'', ''.md'', ''.tf'', ''.tfvars'', ''.hcl'',
      ''.pkr.hcl'', ''.Dockerfile'', ''.dockerignore'', ''.yml'', ''.yaml''}"

subsection \<open>The library function \<open>path.extname\<close>\<close>

text \<open>
  \<open>path.extname\<close> belongs to the Node.js runtime (lib/path.js, POSIX variant), not to the
  repository. The definition follows its scan of the path from the last character to the
  first, with the five local variables of that function. The documented behaviour it
  reproduces: the extension runs from the last \<open>.\<close> of the last path portion to its end;
  it is empty when there is no \<open>.\<close>, or when the only \<open>.\<close> is the first character of the
  portion (\<open>path.extname('.index')\<close> is the empty string).
\<close>

record extname_state =
  startDot :: int
  startPart :: int
  end' :: int
  matchedSlash :: bool
  preDotState :: int

text \<open>\<open>extname_loop p n st\<close> runs the iterations \<open>i = n - 1, ..., 0\<close> of the scan.\<close>

fun extname_loop :: "string \<Rightarrow> nat \<Rightarrow> extname_state \<Rightarrow> extname_state" where
  "extname_loop p 0 st = st"
| "extname_loop p (Suc i) st =
     (let code = p ! i in
      if code = CHR ''/'' then
        (if \<not> matchedSlash st then st\<lparr>startPart := int i + 1\<rparr>
         else extname_loop p i st)
      else
        (let st1 = (if end' st = - 1 then st\<lparr>matchedSlash := False, end' := int i + 1\<rparr>
                    else st);
             st2 = (if code = CHR ''.'' then
                      (if startDot st1 = - 1 then st1\<lparr>startDot := int i\<rparr>
                       else if preDotState st1 \<noteq> 1 then st1\<lparr>preDotState := 1\<rparr>
                       else st1)
                    else if startDot st1 \<noteq> - 1 then st1\<lparr>preDotState := - 1\<rparr>
                    else st1)
         in extname_loop p i st2))"

definition extname :: "string \<Rightarrow> string" where
  "extname p =
     (let st = extname_loop p (length p)
                 \<lparr>startDot = - 1, startPart = 0, end' = - 1, matchedSlash = True,
                  preDotState = 0\<rparr>
      in if startDot st = - 1 \<or> end' st = - 1 \<or> preDotState st = 0 \<or>
            (preDotState st = 1 \<and> startDot st = end' st - 1 \<and>
             startDot st = startPart st + 1)
         then []
         else take (nat (end' st - startDot st)) (drop (nat (startDot st)) p))"

subsection \<open>Directory trees\<close>

text \<open>
  \<open>fs.readdir(dir, {withFileTypes: true})\<close> either rejects with an error or resolves to the
  entries of \<open>dir\<close>, each with a name and a type. A directory tree is therefore a
  \<open>listing\<close>: the outcome of \<open>readdir\<close> on a directory, whose directory entries carry the
  outcome of \<open>readdir\<close> on themselves. \<open>File\<close> stands for every entry whose
  \<open>isDirectory()\<close> is false (regular files, symbolic links, sockets, ...).

  An \<open>error\<close> is a thrown JavaScript value: \<open>ExternalError\<close> is a rejection of a call
  to the file system or to a remote service (with its message), \<open>TypeError\<close> the
  runtime's error on reading a property of \<open>undefined\<close>.
\<close>

datatype error = ExternalError string | TypeError string

datatype listing = Entries "dirent list" | ReaddirError error
  and dirent = File string | Directory string listing

fun isDirectory :: "dirent \<Rightarrow> bool" where
  "isDirectory (File nm) = False"
| "isDirectory (Directory nm l) = True"

fun name :: "dirent \<Rightarrow> string" where
  "name (File nm) = nm"
| "name (Directory nm l) = nm"

text \<open>
  \<open>path.resolve(dir, entry.name)\<close> for an absolute, normalised \<open>dir\<close> and an entry name
  (non-empty, without \<open>/\<close>, neither \<open>.\<close> nor \<open>..\<close>): the name is appended after one
  separator; the root directory \<open>/\<close> already ends in one.
\<close>

definition resolve :: "string \<Rightarrow> string \<Rightarrow> string" where
  "resolve dir nm = (if dir = ''/'' then dir @ nm else dir @ ''/'' @ nm)"

subsection \<open>The traversal\<close>

text \<open>
  \<open>readFilesRecursively dir l\<close> is the call \<open>readFilesRecursively(dir)\<close> on a directory whose
  tree is \<open>l\<close>; \<open>Inl\<close> is the rethrown error (the \<open>catch\<close> block only logs and rethrows),
  \<open>Inr\<close> the returned array. \<open>mapEntry\<close> is the callback given to \<open>entries.map\<close> (lines
  39-56): the first equation is a non-directory entry, the second a directory entry.
  \<open>promiseAll\<close> is \<open>Promise.all\<close> over the callbacks' results: the array of their
  values in entry order when all fulfil, a rejection when one rejects. When several
  callbacks reject, JavaScript keeps the rejection that happens first in time; the model
  keeps the first in entry order. \<open>files.flat()\<close> is \<open>concat\<close>.
\<close>

fun readFilesRecursively :: "string \<Rightarrow> listing \<Rightarrow> error + string list"
  and mapEntry :: "string \<Rightarrow> dirent \<Rightarrow> error + string list"
  and promiseAll :: "string \<Rightarrow> dirent list \<Rightarrow> error + string list list"
where
  "readFilesRecursively dir (ReaddirError err) = Inl err"
| "readFilesRecursively dir (Entries entries) =
     (case promiseAll dir entries of
        Inl err \<Rightarrow> Inl err
      | Inr files \<Rightarrow> Inr (concat files))"
| "mapEntry dir (File nm) =
     (let res = resolve dir nm in
      if extname nm \<notin> allowedExtensions then Inr [] else Inr [res])"
| "mapEntry dir (Directory nm l) =
     (let res = resolve dir nm in
      if nm \<in> ignoredDirs then Inr [] else readFilesRecursively res l)"
| "promiseAll dir [] = Inr []"
| "promiseAll dir (entry # entries) =
     (case mapEntry dir entry of
        Inl err \<Rightarrow> Inl err
      | Inr fs \<Rightarrow>
          (case promiseAll dir entries of
             Inl err \<Rightarrow> Inl err
           | Inr fss \<Rightarrow> Inr (fs # fss)))"


subsection \<open>Notions the properties of the File Selector are stated with\<close>

text \<open>
  The names \<open>readdir\<close> can return: non-empty, without a separator, neither \<open>.\<close> nor
  \<open>..\<close>. A tree is well-formed when all its entries have such names.
\<close>

definition valid_name :: "string \<Rightarrow> bool" where
  "valid_name nm = (nm \<noteq> [] \<and> nm \<noteq> ''.'' \<and> nm \<noteq> ''..'' \<and> CHR ''/'' \<notin> set nm)"

fun wf_listing :: "listing \<Rightarrow> bool"
  and wf_dirent :: "dirent \<Rightarrow> bool"
  and wf_dirents :: "dirent list \<Rightarrow> bool"
where
  "wf_listing (ReaddirError err) = True"
| "wf_listing (Entries entries) = wf_dirents entries"
| "wf_dirent (File nm) = valid_name nm"
| "wf_dirent (Directory nm l) = (valid_name nm \<and> wf_listing l)"
| "wf_dirents [] = True"
| "wf_dirents (entry # entries) = (wf_dirent entry \<and> wf_dirents entries)"

text \<open>\<open>filesBelow dir l\<close>: the paths of all non-directory entries of the tree, at any depth.\<close>

fun filesBelow :: "string \<Rightarrow> listing \<Rightarrow> string list"
  and filesBelowEntry :: "string \<Rightarrow> dirent \<Rightarrow> string list"
  and filesBelowEntries :: "string \<Rightarrow> dirent list \<Rightarrow> string list"
where
  "filesBelow dir (ReaddirError err) = []"
| "filesBelow dir (Entries entries) = filesBelowEntries dir entries"
| "filesBelowEntry dir (File nm) = [resolve dir nm]"
| "filesBelowEntry dir (Directory nm l) = filesBelow (resolve dir nm) l"
| "filesBelowEntries dir [] = []"
| "filesBelowEntries dir (entry # entries) =
     filesBelowEntry dir entry @ filesBelowEntries dir entries"

text \<open>
  \<open>underDenied dir l\<close>: the paths of the non-directory entries that lie, at any depth, below
  a directory entry of the tree whose name is in \<open>ignoredDirs\<close>.
\<close>

fun underDenied :: "string \<Rightarrow> listing \<Rightarrow> string list"
  and underDeniedEntry :: "string \<Rightarrow> dirent \<Rightarrow> string list"
  and underDeniedEntries :: "string \<Rightarrow> dirent list \<Rightarrow> string list"
where
  "underDenied dir (ReaddirError err) = []"
| "underDenied dir (Entries entries) = underDeniedEntries dir entries"
| "underDeniedEntry dir (File nm) = []"
| "underDeniedEntry dir (Directory nm l) =
     (if nm \<in> ignoredDirs then filesBelow (resolve dir nm) l
      else underDenied (resolve dir nm) l)"
| "underDeniedEntries dir [] = []"
| "underDeniedEntries dir (entry # entries) =
     underDeniedEntry dir entry @ underDeniedEntries dir entries"

text \<open>
  \<open>failedListings l\<close>: the errors of the \<open>readdir\<close> calls the traversal issues and that
  reject: the root's, and those of the directories reached through directories whose
  names are not in \<open>ignoredDirs\<close>. (All callbacks of one \<open>entries.map\<close> start before any of
  them is awaited, so a rejection in one subtree does not keep the others from being
  listed.)
\<close>

fun failedListings :: "listing \<Rightarrow> error list"
  and failedListingsEntry :: "dirent \<Rightarrow> error list"
  and failedListingsEntries :: "dirent list \<Rightarrow> error list"
where
  "failedListings (ReaddirError err) = [err]"
| "failedListings (Entries entries) = failedListingsEntries entries"
| "failedListingsEntry (File nm) = []"
| "failedListingsEntry (Directory nm l) =
     (if nm \<in> ignoredDirs then [] else failedListings l)"
| "failedListingsEntries [] = []"
| "failedListingsEntries (entry # entries) =
     failedListingsEntry entry @ failedListingsEntries entries"

text \<open>Paths as lists of components, for the proofs.\<close>

definition slashed :: "string list \<Rightarrow> string" where
  "slashed ns = concat (map (\<lambda>n. ''/'' @ n) ns)"

definition stem :: "string \<Rightarrow> string" where
  "stem dir = (if dir = ''/'' then [] else dir)"

definition reaches :: "string \<Rightarrow> string list \<Rightarrow> string \<Rightarrow> string \<Rightarrow> bool" where
  "reaches dir ns f p =
     (p = foldl resolve dir (ns @ [f]) \<and> (\<forall>n\<in>set (ns @ [f]). valid_name n))"


section \<open>External collaborators and observable effects\<close>

text \<open>
  The Pinecone client, the OpenAI client and \<open>fs.readFile\<close> are external. Each operation
  is a function of the request and of the state of the service behind it, returning the
  settled promise (\<open>Inl\<close> a rejection, \<open>Inr\<close> the fulfilled value) and the next state; the
  state types \<open>'f\<close> (file system), \<open>'e\<close> (embedding service) and \<open>'v\<close> (vector store) are
  parameters. Every awaited call is taken to settle.
\<close>

record IndexModelStatus =
  ready :: bool

record IndexModel =
  index_name :: string
  status :: IndexModelStatus

text \<open>The response of \<open>listIndexes\<close>; its field \<open>indexes\<close> is optional.\<close>

record IndexList =
  indexes :: "IndexModel list option"

record ServerlessSpec =
  cloud :: string
  region :: string

record CreateIndexOptions =
  create_name :: string
  dimension :: nat
  spec_serverless :: ServerlessSpec

record RecordMetadata =
  md_path :: string
  md_text :: string

record PineconeRecord =
  record_id :: string
  record_values :: "real list"
  metadata :: RecordMetadata

record EmbeddingCreateParams =
  model :: string
  input :: string

record Embedding =
  embedding :: "real list"

record CreateEmbeddingResponse =
  data :: "Embedding list"

text \<open>
  \<open>upsert\<close> takes the name given to \<open>pc.index(indexName)\<close> and the array passed to
  \<open>index.upsert\<close>; \<open>pc.index\<close> itself only builds the handle.
\<close>

record 'v Pinecone =
  listIndexes :: "'v \<Rightarrow> (error + IndexList) \<times> 'v"
  createIndex :: "CreateIndexOptions \<Rightarrow> 'v \<Rightarrow> (error + unit) \<times> 'v"
  describeIndex :: "string \<Rightarrow> 'v \<Rightarrow> (error + IndexModel) \<times> 'v"
  upsert :: "string \<Rightarrow> PineconeRecord list \<Rightarrow> 'v \<Rightarrow> (error + unit) \<times> 'v"

record 'e OpenAI =
  embeddings_create :: "EmbeddingCreateParams \<Rightarrow> 'e \<Rightarrow> (error + CreateEmbeddingResponse) \<times> 'e"

text \<open>
  What \<open>indexFiles\<close> works with: the \<open>indexer\<close> and the \<open>embedder\<close> of its options object,
  and \<open>fs.readFile\<close> (with the encoding \<open>utf8\<close>), which the module imports. The third
  option, \<open>dryrunMode\<close>, is passed on its own.
\<close>

record ('f, 'e, 'v) deps =
  fs_readFile :: "string \<Rightarrow> 'f \<Rightarrow> (error + string) \<times> 'f"
  embedder :: "'e OpenAI"
  indexer :: "'v Pinecone"

text \<open>
  What a run does to the outside, in order: the calls it makes to the collaborators, the
  timers it waits for (in milliseconds) and the lines it prints. \<open>ConsoleError msg err\<close>
  is \<open>console.error(msg, err)\<close>.
\<close>

datatype event =
    ListIndexes
  | CreateIndex CreateIndexOptions
  | DescribeIndex string
  | SetTimeout nat
  | ReadFile string
  | EmbeddingsCreate EmbeddingCreateParams
  | Upsert string "PineconeRecord list"
  | ConsoleLog string
  | ConsoleError string error

record ('f, 'e, 'v) world =
  fs :: 'f
  openai :: 'e
  pinecone :: 'v
  events :: "event list"

definition emit :: "event list \<Rightarrow> ('f, 'e, 'v) world \<Rightarrow> ('f, 'e, 'v) world" where
  "emit evs w = w\<lparr>events := events w @ evs\<rparr>"

text \<open>A world with an empty record of events: what a run does is then all there is.\<close>

definition fresh :: "('f, 'e, 'v) world \<Rightarrow> ('f, 'e, 'v) world" where
  "fresh w = w\<lparr>events := []\<rparr>"

section \<open>Index Provisioner: \<open>initializePineconeIndex\<close> (src/indexer.ts, lines 65-95)\<close>

text \<open>
  How a call stands after a bounded number of polls: it has returned, it has thrown, or
  it is still in the \<open>while\<close> loop.
\<close>

datatype completion = Fulfilled | Rejected error | Waiting

definition quote :: "string \<Rightarrow> string" where
  "quote s = [CHR 0x27] @ s @ [CHR 0x27]"

definition waitingMessage :: "string \<Rightarrow> string" where
  "waitingMessage indexName =
     ''Waiting for Pinecone index '' @ quote indexName @ '' to be ready...''"

text \<open>
  The loop of lines 81-90. The source has no bound on it; \<open>waitLoop n\<close> runs at most \<open>n\<close>
  iterations and answers \<open>Waiting\<close> when the loop has not been left by then. An
  iteration calls \<open>describeIndex\<close>; a rejection leaves the loop by the exception, a
  description with \<open>status.ready === true\<close> leaves it by the condition, any other prints
  the notice and awaits a timer of 2000 ms.
\<close>

fun waitLoop ::
  "nat \<Rightarrow> 'v Pinecone \<Rightarrow> string \<Rightarrow> ('f, 'e, 'v) world \<Rightarrow> completion \<times> ('f, 'e, 'v) world"
where
  "waitLoop 0 pc indexName w = (Waiting, w)"
| "waitLoop (Suc n) pc indexName w =
     (case describeIndex pc indexName (pinecone w) of
        (Inl err, v) \<Rightarrow> (Rejected err, emit [DescribeIndex indexName] (w\<lparr>pinecone := v\<rparr>))
      | (Inr indexDescription, v) \<Rightarrow>
          (let w1 = emit [DescribeIndex indexName] (w\<lparr>pinecone := v\<rparr>) in
           if ready (status indexDescription) = True then (Fulfilled, w1)
           else waitLoop n pc indexName
                  (emit [ConsoleLog (waitingMessage indexName), SetTimeout 2000] w1)))"

definition createOptions :: "string \<Rightarrow> CreateIndexOptions" where
  "createOptions indexName =
     \<lparr>create_name = indexName, dimension = 1536,
      spec_serverless = \<lparr>cloud = ''aws'', region = ''us-east-1''\<rparr>\<rparr>"

text \<open>
  Lines 70-79, then the loop. \<open>existingIndexes?.map(...)\<close> is \<open>map_option (map index_name)\<close>;
  \<open>!indexNames\<close> holds exactly for \<open>undefined\<close> (an array, even empty, is truthy).
\<close>

definition tryInitialize ::
  "nat \<Rightarrow> string \<Rightarrow> 'v Pinecone \<Rightarrow> ('f, 'e, 'v) world \<Rightarrow> completion \<times> ('f, 'e, 'v) world"
where
  "tryInitialize n indexName pc w =
     (case listIndexes pc (pinecone w) of
        (Inl err, v) \<Rightarrow> (Rejected err, emit [ListIndexes] (w\<lparr>pinecone := v\<rparr>))
      | (Inr response, v) \<Rightarrow>
          (let w1 = emit [ListIndexes] (w\<lparr>pinecone := v\<rparr>);
               existingIndexes = indexes response;
               indexNames = map_option (map index_name) existingIndexes
           in if (case indexNames of None \<Rightarrow> True | Some names \<Rightarrow> indexName \<notin> set names)
              then
                (case createIndex pc (createOptions indexName) (pinecone w1) of
                   (Inl err, v') \<Rightarrow>
                     (Rejected err,
                      emit [CreateIndex (createOptions indexName)] (w1\<lparr>pinecone := v'\<rparr>))
                 | (Inr u, v') \<Rightarrow>
                     waitLoop n pc indexName
                       (emit [CreateIndex (createOptions indexName)] (w1\<lparr>pinecone := v'\<rparr>)))
              else waitLoop n pc indexName w1))"

text \<open>The \<open>catch\<close> block of lines 91-94 prints the error and rethrows it.\<close>

fun logAndRethrow :: "completion \<times> ('f, 'e, 'v) world \<Rightarrow> completion \<times> ('f, 'e, 'v) world" where
  "logAndRethrow (Rejected err, w) =
     (Rejected err, emit [ConsoleError ''Error initializing Pinecone index:'' err] w)"
| "logAndRethrow (c, w) = (c, w)"

definition initializePineconeIndex ::
  "nat \<Rightarrow> string \<Rightarrow> 'v Pinecone \<Rightarrow> ('f, 'e, 'v) world \<Rightarrow> completion \<times> ('f, 'e, 'v) world"
where
  "initializePineconeIndex n indexName pc w = logAndRethrow (tryInitialize n indexName pc w)"

subsection \<open>Notions the properties of the Index Provisioner are stated with\<close>

text \<open>The create-index requests among the events.\<close>

fun createRequests :: "event list \<Rightarrow> CreateIndexOptions list" where
  "createRequests [] = []"
| "createRequests (CreateIndex opts # evs) = opts # createRequests evs"
| "createRequests (ev # evs) = createRequests evs"

text \<open>Whether the response of \<open>listIndexes\<close> has an index of that name.\<close>

definition listed :: "string \<Rightarrow> IndexList \<Rightarrow> bool" where
  "listed indexName response =
     (case indexes response of
        None \<Rightarrow> False
      | Some ms \<Rightarrow> indexName \<in> set (map index_name ms))"

text \<open>
  The polls of the store one after the other: \<open>pollState pc indexName v k\<close> is the state of
  the store after \<open>k\<close> calls of \<open>describeIndex\<close> from \<open>v\<close>, \<open>pollResult\<close> the answer to the
  next one, and \<open>leavesLoop\<close> whether an answer ends the wait: a rejection, or a
  description that is ready.
\<close>

fun pollState :: "'v Pinecone \<Rightarrow> string \<Rightarrow> 'v \<Rightarrow> nat \<Rightarrow> 'v" where
  "pollState pc indexName v 0 = v"
| "pollState pc indexName v (Suc k) =
     pollState pc indexName (snd (describeIndex pc indexName v)) k"

definition pollResult :: "'v Pinecone \<Rightarrow> string \<Rightarrow> 'v \<Rightarrow> nat \<Rightarrow> error + IndexModel" where
  "pollResult pc indexName v k = fst (describeIndex pc indexName (pollState pc indexName v k))"

fun leavesLoop :: "error + IndexModel \<Rightarrow> bool" where
  "leavesLoop (Inl err) = True"
| "leavesLoop (Inr indexDescription) = ready (status indexDescription)"

text \<open>
  The events of one iteration that does not leave the loop, and how the call stands when
  an answer leaves it.
\<close>

definition waitingRound :: "string \<Rightarrow> event list" where
  "waitingRound indexName =
     [DescribeIndex indexName, ConsoleLog (waitingMessage indexName), SetTimeout 2000]"

fun leftWith :: "error + IndexModel \<Rightarrow> completion" where
  "leftWith (Inl err) = Rejected err"
| "leftWith (Inr indexDescription) = Fulfilled"


section \<open>Ingestion Driver: \<open>indexFiles\<close> (src/indexer.ts, lines 97-150)\<close>

text \<open>
  The template literals print numbers in decimal: \<open>numberToString\<close> is JavaScript's
  \<open>String(n)\<close> on a non-negative integer.
\<close>

fun numberToString :: "nat \<Rightarrow> string" where
  "numberToString n =
     (if n < 10 then [char_of (48 + n)]
      else numberToString (n div 10) @ [char_of (48 + n mod 10)])"

definition contentWithFilePath :: "string \<Rightarrow> string \<Rightarrow> string" where
  "contentWithFilePath file content =
     ''File path: '' @ file @ [CHR 0x0A, CHR 0x0A] @ content"

definition indexRecord :: "string \<Rightarrow> real list \<Rightarrow> string \<Rightarrow> PineconeRecord" where
  "indexRecord file vec doc =
     \<lparr>record_id = file, record_values = vec,
      metadata = \<lparr>md_path = file, md_text = doc\<rparr>\<rparr>"

text \<open>
  The body of the \<open>try\<close> block for one file (lines 111-133), up to the increment:
  \<open>Inr ()\<close> when it reaches \<open>successfulCount++\<close>, \<open>Inl err\<close> when it throws. Reading
  \<open>embedding.data[0].embedding\<close> throws a \<open>TypeError\<close> when \<open>data\<close> is empty; the
  argument of \<open>index.upsert\<close> is evaluated before the call.
\<close>

definition tryIndexFile ::
  "('f, 'e, 'v) deps \<Rightarrow> bool \<Rightarrow> string \<Rightarrow> string \<Rightarrow> ('f, 'e, 'v) world \<Rightarrow>
     (error + unit) \<times> ('f, 'e, 'v) world"
where
  "tryIndexFile d dryrunMode indexName file w =
     (case fs_readFile d file (fs w) of
        (Inl err, f) \<Rightarrow> (Inl err, emit [ReadFile file] (w\<lparr>fs := f\<rparr>))
      | (Inr content, f) \<Rightarrow>
          (let w1 = emit [ReadFile file] (w\<lparr>fs := f\<rparr>);
               doc = contentWithFilePath file content
           in if dryrunMode
              then (Inr (), emit [ConsoleLog (''[Dry Run] Indexed file: '' @ file)] w1)
              else
                (let params = \<lparr>model = ''text-embedding-3-small'', input = doc\<rparr> in
                 case embeddings_create (embedder d) params (openai w1) of
                   (Inl err, e) \<Rightarrow> (Inl err, emit [EmbeddingsCreate params] (w1\<lparr>openai := e\<rparr>))
                 | (Inr response, e) \<Rightarrow>
                     (let w2 = emit [EmbeddingsCreate params] (w1\<lparr>openai := e\<rparr>) in
                      case data response of
                        [] \<Rightarrow>
                          (Inl (TypeError ''Cannot read properties of undefined''), w2)
                      | first # others \<Rightarrow>
                          (let records = [indexRecord file (embedding first) doc] in
                           case upsert (indexer d) indexName records (pinecone w2) of
                             (Inl err, v) \<Rightarrow>
                               (Inl err, emit [Upsert indexName records] (w2\<lparr>pinecone := v\<rparr>))
                           | (Inr u, v) \<Rightarrow>
                               (Inr (),
                                emit [Upsert indexName records,
                                      ConsoleLog (''Indexed file: '' @ file)]
                                  (w2\<lparr>pinecone := v\<rparr>)))))))"

text \<open>
  The \<open>for\<close> loop of lines 109-139 with its local variable \<open>successfulCount\<close>: a file whose
  \<open>try\<close> block throws is reported by \<open>console.error\<close> and the loop goes on.
\<close>

fun indexLoop ::
  "('f, 'e, 'v) deps \<Rightarrow> bool \<Rightarrow> string \<Rightarrow> string list \<Rightarrow> nat \<times> ('f, 'e, 'v) world \<Rightarrow>
     nat \<times> ('f, 'e, 'v) world"
where
  "indexLoop d dryrunMode indexName [] (successfulCount, w) = (successfulCount, w)"
| "indexLoop d dryrunMode indexName (file # files) (successfulCount, w) =
     (case tryIndexFile d dryrunMode indexName file w of
        (Inr u, w') \<Rightarrow> indexLoop d dryrunMode indexName files (successfulCount + 1, w')
      | (Inl err, w') \<Rightarrow>
          indexLoop d dryrunMode indexName files
            (successfulCount,
             emit [ConsoleError (''Error indexing file '' @ file @ '':'') err] w'))"

definition summary :: "bool \<Rightarrow> nat \<Rightarrow> nat \<Rightarrow> string \<Rightarrow> string" where
  "summary dryrunMode successfulCount filesLength indexName =
     ''Successfully '' @ (if dryrunMode then ''simulated indexing'' else ''indexed'') @
     '' '' @ numberToString successfulCount @ '' out of '' @ numberToString filesLength @
     '' files in Pinecone under index '' @ quote indexName @
     (if dryrunMode then '' (dry run)'' else [])"

text \<open>
  \<open>indexFiles\<close> returns nothing; all it leaves is its effects. \<open>successfulCount\<close> starts at
  0 and is printed in the last line. Line 106, \<open>const index = pc.index(indexName)\<close>, stands
  before the loop and outside every \<open>try\<close> block: it is taken to return the handle. (A
  client whose \<open>index\<close> throws, on an empty name for instance, would end the call there,
  before any file is read; that case is not part of the model.)
\<close>

definition indexFiles ::
  "string list \<Rightarrow> string \<Rightarrow> ('f, 'e, 'v) deps \<Rightarrow> bool \<Rightarrow> ('f, 'e, 'v) world \<Rightarrow>
     ('f, 'e, 'v) world"
where
  "indexFiles files indexName d dryrunMode w =
     (case indexLoop d dryrunMode indexName files (0, w) of
        (successfulCount, w') \<Rightarrow>
          emit [ConsoleLog (summary dryrunMode successfulCount (length files) indexName)] w')"

subsection \<open>Notions the properties of the Ingestion Driver are stated with\<close>

text \<open>The final value of \<open>successfulCount\<close>.\<close>

definition finalCount ::
  "string list \<Rightarrow> string \<Rightarrow> ('f, 'e, 'v) deps \<Rightarrow> bool \<Rightarrow> ('f, 'e, 'v) world \<Rightarrow> nat"
where
  "finalCount files indexName d dryrunMode w =
     fst (indexLoop d dryrunMode indexName files (0, w))"

text \<open>The files read, the errors reported, and the calls to the two remote services.\<close>

fun filesRead :: "event list \<Rightarrow> string list" where
  "filesRead [] = []"
| "filesRead (ReadFile file # evs) = file # filesRead evs"
| "filesRead (ev # evs) = filesRead evs"

fun failures :: "event list \<Rightarrow> nat" where
  "failures [] = 0"
| "failures (ConsoleError msg err # evs) = Suc (failures evs)"
| "failures (ev # evs) = failures evs"

fun embedCalls :: "event list \<Rightarrow> EmbeddingCreateParams list" where
  "embedCalls [] = []"
| "embedCalls (EmbeddingsCreate params # evs) = params # embedCalls evs"
| "embedCalls (ev # evs) = embedCalls evs"

fun upsertCalls :: "event list \<Rightarrow> (string \<times> PineconeRecord list) list" where
  "upsertCalls [] = []"
| "upsertCalls (Upsert indexName records # evs) = (indexName, records) # upsertCalls evs"
| "upsertCalls (ev # evs) = upsertCalls evs"

text \<open>
  The number of files of a list that \<open>readFile\<close> reads successfully, one after the other
  from a state of the file system.
\<close>

fun readable :: "(string \<Rightarrow> 'f \<Rightarrow> (error + string) \<times> 'f) \<Rightarrow> string list \<Rightarrow> 'f \<Rightarrow> nat" where
  "readable rd [] f = 0"
| "readable rd (file # files) f =
     (case rd file f of
        (Inl err, f') \<Rightarrow> readable rd files f'
      | (Inr content, f') \<Rightarrow> Suc (readable rd files f'))"


subsection \<open>The account of a run that the specification gives\<close>

text \<open>
  What the specification (4.3, steps 1 to 7) says of one file, written from its words
  and from the answers of the collaborators alone, without the driver: the file is read;
  if the read is rejected the file has failed. Otherwise the document is the literal
  \<open>File path: \<close>, the path and two line feeds, followed by the content. In a dry run
  nothing more happens. In real mode the embedding service is asked for the embedding
  of the document; if it rejects, or answers without an embedding, the file has failed.
  Otherwise the entry has the path as id, the returned embedding as values, and the path
  and the document as metadata, and it is upserted alone into the named index; if the
  store rejects, the file has failed. The account of a file keeps the request made to
  the embedding service, the entry given to the store, and the rejection that made the
  file fail, if any; \<open>accountOf\<close> also gives the states of the collaborators after the
  file.
\<close>

record fileAccount =
  embedRequest :: "EmbeddingCreateParams option"
  upsertRequest :: "PineconeRecord option"
  failure :: "error option"

definition accountOf ::
  "('f, 'e, 'v) deps \<Rightarrow> bool \<Rightarrow> string \<Rightarrow> string \<Rightarrow> 'f \<times> 'e \<times> 'v \<Rightarrow>
     fileAccount \<times> 'f \<times> 'e \<times> 'v"
where
  "accountOf d dryRun indexName path s =
     (case s of (f, e, v) \<Rightarrow>
      (case fs_readFile d path f of
         (Inl err, f') \<Rightarrow>
           (\<lparr>embedRequest = None, upsertRequest = None, failure = Some err\<rparr>, f', e, v)
       | (Inr content, f') \<Rightarrow>
           if dryRun
           then (\<lparr>embedRequest = None, upsertRequest = None, failure = None\<rparr>, f', e, v)
           else
             (let document = ''File path: '' @ path @ [CHR 0x0A, CHR 0x0A] @ content;
                  request = \<lparr>model = ''text-embedding-3-small'', input = document\<rparr>
              in case embeddings_create (embedder d) request e of
                   (Inl err, e') \<Rightarrow>
                     (\<lparr>embedRequest = Some request, upsertRequest = None,
                       failure = Some err\<rparr>, f', e', v)
                 | (Inr response, e') \<Rightarrow>
                     (case data response of
                        [] \<Rightarrow>
                          (\<lparr>embedRequest = Some request, upsertRequest = None,
                            failure = Some (TypeError ''Cannot read properties of undefined'')\<rparr>,
                           f', e', v)
                      | first # others \<Rightarrow>
                          (let entry = \<lparr>record_id = path, record_values = embedding first,
                                        metadata = \<lparr>md_path = path, md_text = document\<rparr>\<rparr>
                           in case upsert (indexer d) indexName [entry] v of
                                (Inl err, v') \<Rightarrow>
                                  (\<lparr>embedRequest = Some request, upsertRequest = Some entry,
                                    failure = Some err\<rparr>, f', e', v')
                              | (Inr u, v') \<Rightarrow>
                                  (\<lparr>embedRequest = Some request, upsertRequest = Some entry,
                                    failure = None\<rparr>, f', e', v'))))))"

text \<open>
  The accounts of the files of a list, one after the other from the states of the
  collaborators: each file is handled in the states the file before it has left.
\<close>

fun accounts ::
  "('f, 'e, 'v) deps \<Rightarrow> bool \<Rightarrow> string \<Rightarrow> string list \<Rightarrow> 'f \<times> 'e \<times> 'v \<Rightarrow>
     (string \<times> fileAccount) list"
where
  "accounts d dryRun indexName [] s = []"
| "accounts d dryRun indexName (path # paths) s =
     (case accountOf d dryRun indexName path s of
        (a, s') \<Rightarrow> (path, a) # accounts d dryRun indexName paths s')"

definition collaborators :: "('f, 'e, 'v) world \<Rightarrow> 'f \<times> 'e \<times> 'v" where
  "collaborators w = (fs w, openai w, pinecone w)"

text \<open>
  The files that failed, each with the rejection that made it fail; the requests made
  to the embedding service; and the entries given to the store.
\<close>

fun failedFiles :: "(string \<times> fileAccount) list \<Rightarrow> (string \<times> error) list" where
  "failedFiles [] = []"
| "failedFiles ((path, a) # as) =
     (case failure a of
        None \<Rightarrow> failedFiles as
      | Some err \<Rightarrow> (path, err) # failedFiles as)"

fun embedRequests :: "(string \<times> fileAccount) list \<Rightarrow> EmbeddingCreateParams list" where
  "embedRequests [] = []"
| "embedRequests ((path, a) # as) =
     (case embedRequest a of
        None \<Rightarrow> embedRequests as
      | Some request \<Rightarrow> request # embedRequests as)"

fun upsertRequests :: "(string \<times> fileAccount) list \<Rightarrow> PineconeRecord list" where
  "upsertRequests [] = []"
| "upsertRequests ((path, a) # as) =
     (case upsertRequest a of
        None \<Rightarrow> upsertRequests as
      | Some entry \<Rightarrow> entry # upsertRequests as)"

text \<open>The lines printed by \<open>console.error\<close>, each with the error printed after it.\<close>

fun errorReports :: "event list \<Rightarrow> (string \<times> error) list" where
  "errorReports [] = []"
| "errorReports (ConsoleError msg err # evs) = (msg, err) # errorReports evs"
| "errorReports (ev # evs) = errorReports evs"

section \<open>Deterministic collaborators and a store that replaces on conflict\<close>

text \<open>
  Modelled from the spec: the vector store is a remote service, no code of it is in the
  repository. The specification says of its \<open>upsert\<close> that a record whose id exists
  overwrites the prior record (replace on conflict, not append) and that any other is
  added. The state of the store gives, for the name of an index, the records of that
  index; \<open>rej\<close> says which requests the store rejects, and with which error. A record
  that is in the list is not moved by \<open>upsertRecord\<close>, the first with its id is replaced.
\<close>

fun upsertRecord :: "PineconeRecord \<Rightarrow> PineconeRecord list \<Rightarrow> PineconeRecord list" where
  "upsertRecord r [] = [r]"
| "upsertRecord r (x # xs) =
     (if record_id x = record_id r then r # xs else x # upsertRecord r xs)"

type_synonym store = "string \<Rightarrow> PineconeRecord list"

definition storeUpsert ::
  "(string \<Rightarrow> PineconeRecord list \<Rightarrow> error option) \<Rightarrow>
     string \<Rightarrow> PineconeRecord list \<Rightarrow> store \<Rightarrow> (error + unit) \<times> store"
where
  "storeUpsert rej indexName records v =
     (case rej indexName records of
        Some err \<Rightarrow> (Inl err, v)
      | None \<Rightarrow> (Inr (), v(indexName := fold upsertRecord records (v indexName))))"

text \<open>
  Deterministic collaborators: what \<open>readFile\<close> answers depends on the path only (the file
  set is unchanged), what the embedding service answers on the request only, and the
  store is the one above.
\<close>

definition stateless :: "('a \<Rightarrow> 'r) \<Rightarrow> 'a \<Rightarrow> 's \<Rightarrow> 'r \<times> 's" where
  "stateless g x s = (g x, s)"

definition deterministicDeps ::
  "(string \<Rightarrow> error + string) \<Rightarrow>
   (EmbeddingCreateParams \<Rightarrow> error + CreateEmbeddingResponse) \<Rightarrow>
   (string \<Rightarrow> PineconeRecord list \<Rightarrow> error option) \<Rightarrow>
   store Pinecone \<Rightarrow> ('f, 'e, store) deps"
where
  "deterministicDeps rd em rej pc =
     \<lparr>fs_readFile = stateless rd,
      embedder = \<lparr>embeddings_create = stateless em\<rparr>,
      indexer = pc\<lparr>upsert := storeUpsert rej\<rparr>\<rparr>"

text \<open>
  With such collaborators, the record a run in real mode builds for a file, or the error
  that keeps it from building one.
\<close>

definition planned ::
  "(string \<Rightarrow> error + string) \<Rightarrow>
   (EmbeddingCreateParams \<Rightarrow> error + CreateEmbeddingResponse) \<Rightarrow>
   string \<Rightarrow> error + PineconeRecord"
where
  "planned rd em file =
     (case rd file of
        Inl err \<Rightarrow> Inl err
      | Inr content \<Rightarrow>
          (case em \<lparr>model = ''text-embedding-3-small'',
                    input = contentWithFilePath file content\<rparr> of
             Inl err \<Rightarrow> Inl err
           | Inr response \<Rightarrow>
               (case data response of
                  [] \<Rightarrow> Inl (TypeError ''Cannot read properties of undefined'')
                | first # others \<Rightarrow>
                    Inr (indexRecord file (embedding first)
                           (contentWithFilePath file content)))))"

text \<open>The records of a list of files that are built, and those that the store accepts.\<close>

fun plannedRecords ::
  "(string \<Rightarrow> error + string) \<Rightarrow>
   (EmbeddingCreateParams \<Rightarrow> error + CreateEmbeddingResponse) \<Rightarrow>
   string list \<Rightarrow> PineconeRecord list"
where
  "plannedRecords rd em [] = []"
| "plannedRecords rd em (file # files) =
     (case planned rd em file of
        Inl err \<Rightarrow> plannedRecords rd em files
      | Inr r \<Rightarrow> r # plannedRecords rd em files)"

definition acceptedRecords ::
  "(string \<Rightarrow> PineconeRecord list \<Rightarrow> error option) \<Rightarrow> string \<Rightarrow>
     PineconeRecord list \<Rightarrow> PineconeRecord list"
where
  "acceptedRecords rej indexName rs = filter (\<lambda>r. rej indexName [r] = None) rs"

text \<open>A run in real mode, observed from an empty record of events.\<close>

definition realRun ::
  "string list \<Rightarrow> string \<Rightarrow> ('f, 'e, 'v) deps \<Rightarrow> ('f, 'e, 'v) world \<Rightarrow> ('f, 'e, 'v) world"
where
  "realRun files indexName d w = indexFiles files indexName d False (fresh w)"

text \<open>Records of which no two differ and have the same id.\<close>

definition coherent :: "PineconeRecord list \<Rightarrow> bool" where
  "coherent rs = (\<forall>r\<in>set rs. \<forall>r'\<in>set rs. record_id r' = record_id r \<longrightarrow> r' = r)"

section \<open>Collaborators for the examples\<close>

text \<open>
  A control plane with the names of its indexes and the number of polls after which an
  index is ready; its \<open>upsert\<close> accepts everything.
\<close>

definition exampleIndexer :: "(string list \<times> nat) Pinecone" where
  "exampleIndexer =
     \<lparr>listIndexes = (\<lambda>(names, k).
        (Inr \<lparr>indexes = Some (map (\<lambda>nm. \<lparr>index_name = nm, status = \<lparr>ready = True\<rparr>\<rparr>) names)\<rparr>,
         (names, k))),
      createIndex = (\<lambda>opts (names, k). (Inr (), (names @ [create_name opts], k))),
      describeIndex = (\<lambda>nm (names, k).
        (if nm \<in> set names then Inr \<lparr>index_name = nm, status = \<lparr>ready = (k = 0)\<rparr>\<rparr>
         else Inl (ExternalError ''index not found''),
         (names, k - 1))),
      upsert = (\<lambda>nm records st. (Inr (), st))\<rparr>"

text \<open>The same, but its \<open>listIndexes\<close> answers without the field \<open>indexes\<close>.\<close>

definition bareIndexer :: "(string list \<times> nat) Pinecone" where
  "bareIndexer = exampleIndexer\<lparr>listIndexes := (\<lambda>st. (Inr \<lparr>indexes = None\<rparr>, st))\<rparr>"

definition exampleWorld :: "'v \<Rightarrow> (unit, unit, 'v) world" where
  "exampleWorld v = \<lparr>fs = (), openai = (), pinecone = v, events = []\<rparr>"

text \<open>
  A file system with two files, an embedding service that rejects the document of one
  of them, and a store (of the kind above) that accepts every request.
\<close>

definition exampleRead :: "string \<Rightarrow> error + string" where
  "exampleRead path =
     (if path = ''/repo/a.ts'' then Inr ''let a = 1''
      else if path = ''/repo/b.md'' then Inr ''# b''
      else Inl (ExternalError ''ENOENT''))"

definition exampleEmbed :: "EmbeddingCreateParams \<Rightarrow> error + CreateEmbeddingResponse" where
  "exampleEmbed params =
     (if input params = contentWithFilePath ''/repo/b.md'' ''# b''
      then Inl (ExternalError ''rate limit'')
      else Inr \<lparr>data = [\<lparr>embedding = [1, 0]\<rparr>]\<rparr>)"

text \<open>A Pinecone client whose control plane knows no index.\<close>

definition noControl :: "'v Pinecone" where
  "noControl =
     \<lparr>listIndexes = (\<lambda>v. (Inr \<lparr>indexes = None\<rparr>, v)),
      createIndex = (\<lambda>opts v. (Inr (), v)),
      describeIndex = (\<lambda>nm v. (Inl (ExternalError ''index not found''), v)),
      upsert = (\<lambda>nm records v. (Inr (), v))\<rparr>"

definition exampleDeps :: "(unit, unit, store) deps" where
  "exampleDeps = deterministicDeps exampleRead exampleEmbed (\<lambda>nm records. None) noControl"

definition emptyStore :: store where
  "emptyStore = (\<lambda>nm. [])"

text \<open>An index \<open>idx\<close> that holds a stale record of one file and a record of another.\<close>

definition seededStore :: store where
  "seededStore =
     (\<lambda>nm. if nm = ''idx''
           then [\<lparr>record_id = ''/repo/a.ts'', record_values = [0, 1],
                  metadata = \<lparr>md_path = ''/repo/a.ts'', md_text = ''stale''\<rparr>\<rparr>,
                 \<lparr>record_id = ''/repo/z.ts'', record_values = [1, 1],
                  metadata = \<lparr>md_path = ''/repo/z.ts'', md_text = ''z''\<rparr>\<rparr>]
           else [])"

section \<open>Properties of the File Selector\<close>

subsection \<open>The callback as the source writes it\<close>

text \<open>
  The two equations of \<open>mapEntry\<close> are the chain of conditions of lines 43-55, read with
  \<open>entry.isDirectory()\<close> and \<open>entry.name\<close>.
\<close>

lemma mapEntry_as_written:
  "mapEntry dir entry =
     (let res = resolve dir (name entry) in
      if isDirectory entry \<and> name entry \<in> ignoredDirs then Inr []
      else if \<not> isDirectory entry \<and> extname (name entry) \<notin> allowedExtensions then Inr []
      else (case entry of
              Directory nm l \<Rightarrow> readFilesRecursively res l
            | File nm \<Rightarrow> Inr [res]))"
  by (cases entry) (simp_all add: Let_def)

lemma extname_examples:
  "extname ''a.ts'' = ''.ts''"
  "extname ''b.png'' = ''.png''"
  "extname ''c.ts'' = ''.ts''"
  "extname ''.dockerignore'' = []"
  by code_simp+

text \<open>The examples of the Node.js documentation of \<open>path.extname\<close>.\<close>

lemma extname_documented:
  "extname ''index.html'' = ''.html''"
  "extname ''index.coffee.md'' = ''.md''"
  "extname ''index.'' = ''.''"
  "extname ''index'' = []"
  "extname ''.index'' = []"
  "extname ''.index.md'' = ''.md''"
  by code_simp+

text \<open>A name whose only dot is its first character has no extension.\<close>

lemma extname_loop_leading_dot:
  assumes "p ! 0 = CHR ''.''"
    and "\<forall>i. 0 < i \<and> i < n \<longrightarrow> p ! i \<noteq> CHR ''/'' \<and> p ! i \<noteq> CHR ''.''"
    and "startDot st = - 1" and "preDotState st = 0" and "0 < n"
  shows "preDotState (extname_loop p n st) = 0"
  using assms
proof (induction n arbitrary: st)
  case 0
  then show ?case by simp
next
  case (Suc m)
  show ?case
  proof (cases m)
    case 0
    with Suc.prems show ?thesis
      by (simp add: Let_def)
  next
    case (Suc k)
    let ?st1 = "if end' st = - 1 then st\<lparr>matchedSlash := False, end' := int m + 1\<rparr> else st"
    from Suc.prems(2) Suc have plain: "p ! m \<noteq> CHR ''/''" "p ! m \<noteq> CHR ''.''"
      by simp_all
    with Suc.prems(3) have step: "extname_loop p (Suc m) st = extname_loop p m ?st1"
      by (simp add: Let_def)
    have "preDotState (extname_loop p m ?st1) = 0"
      using Suc.prems Suc by (intro Suc.IH) auto
    with step show ?thesis by simp
  qed
qed

lemma extname_dotfile:
  assumes "CHR ''.'' \<notin> set rest" and "CHR ''/'' \<notin> set rest"
  shows "extname (CHR ''.'' # rest) = []"
proof -
  let ?p = "CHR ''.'' # rest"
  have "\<forall>i. 0 < i \<and> i < length ?p \<longrightarrow> ?p ! i \<noteq> CHR ''/'' \<and> ?p ! i \<noteq> CHR ''.''"
  proof (intro allI impI)
    fix i assume "0 < i \<and> i < length ?p"
    then obtain j where "i = Suc j" "j < length rest"
      by (cases i) auto
    with assms show "?p ! i \<noteq> CHR ''/'' \<and> ?p ! i \<noteq> CHR ''.''"
      by (metis nth_Cons_Suc nth_mem)
  qed
  then have "preDotState (extname_loop ?p (length ?p)
      \<lparr>startDot = - 1, startPart = 0, end' = - 1, matchedSlash = True, preDotState = 0\<rparr>) = 0"
    by (intro extname_loop_leading_dot) simp_all
  then show ?thesis
    by (simp add: extname_def Let_def)
qed

lemma file_selected_iff:
  "mapEntry dir (File nm) =
     Inr (if extname nm \<in> allowedExtensions then [resolve dir nm] else [])"
  by (simp add: Let_def)

subsection \<open>Paths and their components\<close>

lemma resolve_stem: "resolve dir nm = stem dir @ ''/'' @ nm"
  by (simp add: resolve_def stem_def)

lemma stem_resolve: "nm \<noteq> [] \<Longrightarrow> stem (resolve dir nm) = resolve dir nm"
  by (cases nm) (auto simp: resolve_def stem_def)

lemma foldl_resolve:
  "\<forall>n\<in>set ns. n \<noteq> [] \<Longrightarrow> ns \<noteq> [] \<Longrightarrow> foldl resolve dir ns = stem dir @ slashed ns"
proof (induction ns arbitrary: dir)
  case Nil
  then show ?case by simp
next
  case (Cons n ns)
  show ?case
  proof (cases ns)
    case Nil
    then show ?thesis by (simp add: resolve_stem slashed_def)
  next
    case (Cons m ms)
    with Cons.prems Cons.IH [of "resolve dir n"] show ?thesis
      by (simp add: stem_resolve) (simp add: resolve_stem slashed_def)
  qed
qed

lemma takeWhile_piece:
  assumes "CHR ''/'' \<notin> set n" and "r = [] \<or> hd r = CHR ''/''"
  shows "takeWhile (\<lambda>c. c \<noteq> CHR ''/'') (n @ r) = n"
proof -
  have "takeWhile (\<lambda>c. c \<noteq> CHR ''/'') r = []"
    using assms(2) by (cases r) auto
  with assms(1) show ?thesis
    by (induction n) auto
qed

lemma slashed_head: "slashed ns = [] \<or> hd (slashed ns) = CHR ''/''"
  by (cases ns) (simp_all add: slashed_def)

lemma slashed_inj:
  "\<forall>n\<in>set ns. CHR ''/'' \<notin> set n \<Longrightarrow> \<forall>m\<in>set ms. CHR ''/'' \<notin> set m \<Longrightarrow>
   slashed ns = slashed ms \<Longrightarrow> ns = ms"
proof (induction ns arbitrary: ms)
  case Nil
  then show ?case by (cases ms) (simp_all add: slashed_def)
next
  case (Cons n ns)
  show ?case
  proof (cases ms)
    case Nil
    with Cons.prems show ?thesis by (simp add: slashed_def)
  next
    case (Cons m ms')
    with Cons.prems have eq: "n @ slashed ns = m @ slashed ms'"
      by (simp add: slashed_def)
    have "takeWhile (\<lambda>c. c \<noteq> CHR ''/'') (n @ slashed ns) = n"
      using Cons.prems(1) slashed_head [of ns] by (intro takeWhile_piece) auto
    moreover have "takeWhile (\<lambda>c. c \<noteq> CHR ''/'') (m @ slashed ms') = m"
      using Cons.prems(2) Cons slashed_head [of ms'] by (intro takeWhile_piece) auto
    ultimately have nm: "n = m" using eq by simp
    with eq have "slashed ns = slashed ms'" by simp
    with Cons.IH [of ms'] Cons.prems Cons nm show ?thesis by simp
  qed
qed


lemma foldl_resolve_inj:
  assumes "\<forall>n\<in>set ns. valid_name n" and "\<forall>m\<in>set ms. valid_name m"
    and "ns \<noteq> []" and "ms \<noteq> []"
    and "foldl resolve dir ns = foldl resolve dir ms"
  shows "ns = ms"
proof -
  have "stem dir @ slashed ns = stem dir @ slashed ms"
    using assms foldl_resolve [of ns dir] foldl_resolve [of ms dir]
    by (simp add: valid_name_def)
  then have "slashed ns = slashed ms" by simp
  with assms(1,2) show ?thesis
    by (intro slashed_inj) (auto simp: valid_name_def)
qed

lemma reaches_file: "valid_name nm \<Longrightarrow> reaches dir [] nm (resolve dir nm)"
  by (simp add: reaches_def)

lemma reaches_down:
  "valid_name nm \<Longrightarrow> reaches (resolve dir nm) ns f p \<Longrightarrow> reaches dir (nm # ns) f p"
  by (auto simp: reaches_def)

lemma reaches_unique:
  assumes "reaches dir ns f p" and "reaches dir ms g p"
  shows "ns = ms"
proof -
  have "ns @ [f] = ms @ [g]"
    using assms by (intro foldl_resolve_inj [of _ _ dir]) (auto simp: reaches_def)
  then show ?thesis by simp
qed

lemma selected_reaches:
  "wf_listing l \<Longrightarrow> readFilesRecursively dir l = Inr files \<Longrightarrow> p \<in> set files \<Longrightarrow>
     \<exists>ns f. reaches dir ns f p \<and> set ns \<inter> ignoredDirs = {}"
  "wf_dirent entry \<Longrightarrow> mapEntry dir entry = Inr files \<Longrightarrow> p \<in> set files \<Longrightarrow>
     \<exists>ns f. reaches dir ns f p \<and> set ns \<inter> ignoredDirs = {}"
  "wf_dirents entries \<Longrightarrow> promiseAll dir entries = Inr fss \<Longrightarrow> p \<in> set (concat fss) \<Longrightarrow>
     \<exists>ns f. reaches dir ns f p \<and> set ns \<inter> ignoredDirs = {}"
proof (induction dir l and dir entry and dir entries arbitrary: files and files and fss
    rule: readFilesRecursively_mapEntry_promiseAll.induct)
  case (1 dir err)
  then show ?case by simp
next
  case (2 dir entries)
  then show ?case by (auto split: sum.splits)
next
  case (3 dir nm)
  then have "p = resolve dir nm" and "valid_name nm"
    by (auto simp: Let_def split: if_splits)
  then have "reaches dir [] nm p \<and> set [] \<inter> ignoredDirs = {}"
    using reaches_file by simp
  then show ?case by blast
next
  case (4 dir nm l)
  from "4.prems" have nm: "valid_name nm" "nm \<notin> ignoredDirs" and l: "wf_listing l"
    and run: "readFilesRecursively (resolve dir nm) l = Inr files"
    by (auto simp: Let_def split: if_splits)
  from "4.IH" [OF refl _ l run "4.prems"(3)] nm(2)
  obtain ns f where "reaches (resolve dir nm) ns f p" "set ns \<inter> ignoredDirs = {}"
    by auto
  with nm have "reaches dir (nm # ns) f p \<and> set (nm # ns) \<inter> ignoredDirs = {}"
    using reaches_down by simp
  then show ?case by blast
next
  case (5 dir)
  then show ?case by simp
next
  case (6 dir entry entries)
  from "6.prems" obtain fs fss' where eqs: "mapEntry dir entry = Inr fs"
      "promiseAll dir entries = Inr fss'" "fss = fs # fss'"
    and wf: "wf_dirent entry" "wf_dirents entries"
    by (auto split: sum.splits)
  from "6.prems"(3) eqs(3) consider "p \<in> set fs" | "p \<in> set (concat fss')"
    by auto
  then show ?case
  proof cases
    case 1
    with "6.IH"(1) wf(1) eqs(1) show ?thesis by blast
  next
    case 2
    with "6.IH"(2) [OF eqs(1) wf(2) eqs(2)] show ?thesis by blast
  qed
qed

lemma below_reaches:
  "wf_listing l \<Longrightarrow> p \<in> set (filesBelow dir l) \<Longrightarrow> \<exists>ns f. reaches dir ns f p"
  "wf_dirent entry \<Longrightarrow> p \<in> set (filesBelowEntry dir entry) \<Longrightarrow> \<exists>ns f. reaches dir ns f p"
  "wf_dirents entries \<Longrightarrow> p \<in> set (filesBelowEntries dir entries) \<Longrightarrow>
     \<exists>ns f. reaches dir ns f p"
proof (induction dir l and dir entry and dir entries
    rule: filesBelow_filesBelowEntry_filesBelowEntries.induct)
  case (3 dir nm)
  then show ?case using reaches_file by auto
next
  case (4 dir nm l)
  then show ?case using reaches_down by fastforce
qed auto

lemma denied_reaches:
  "wf_listing l \<Longrightarrow> p \<in> set (underDenied dir l) \<Longrightarrow>
     \<exists>ns f. reaches dir ns f p \<and> set ns \<inter> ignoredDirs \<noteq> {}"
  "wf_dirent entry \<Longrightarrow> p \<in> set (underDeniedEntry dir entry) \<Longrightarrow>
     \<exists>ns f. reaches dir ns f p \<and> set ns \<inter> ignoredDirs \<noteq> {}"
  "wf_dirents entries \<Longrightarrow> p \<in> set (underDeniedEntries dir entries) \<Longrightarrow>
     \<exists>ns f. reaches dir ns f p \<and> set ns \<inter> ignoredDirs \<noteq> {}"
proof (induction dir l and dir entry and dir entries
    rule: underDenied_underDeniedEntry_underDeniedEntries.induct)
  case (4 dir nm l)
  show ?case
  proof (cases "nm \<in> ignoredDirs")
    case True
    with "4.prems" obtain ns f where "reaches (resolve dir nm) ns f p"
      using below_reaches(1) [of l p "resolve dir nm"] by auto
    with "4.prems"(1) True
    have "reaches dir (nm # ns) f p \<and> set (nm # ns) \<inter> ignoredDirs \<noteq> {}"
      using reaches_down by simp
    then show ?thesis by blast
  next
    case False
    with "4.prems" "4.IH" obtain ns f
      where "reaches (resolve dir nm) ns f p" "set ns \<inter> ignoredDirs \<noteq> {}"
      by auto
    with "4.prems"(1)
    have "reaches dir (nm # ns) f p \<and> set (nm # ns) \<inter> ignoredDirs \<noteq> {}"
      using reaches_down by auto
    then show ?thesis by blast
  qed
qed auto


subsection \<open>Pruning of the denied directories\<close>

text \<open>
  C1. On every well-formed directory tree, when the traversal returns a list, no path of
  a file lying at any depth below a directory entry named in \<open>ignoredDirs\<close> is in the
  list, whatever the file's extension. And a root with \<open>a.ts\<close>, \<open>b.png\<close> and
  \<open>node_modules/c.ts\<close> yields exactly the path of \<open>a.ts\<close>.
\<close>

theorem denied_directory_never_selected:
  "(wf_listing l \<longrightarrow> readFilesRecursively dir l = Inr files \<longrightarrow>
      set files \<inter> set (underDenied dir l) = {}) \<and>
   readFilesRecursively dir
     (Entries [File ''a.ts'', File ''b.png'',
               Directory ''node_modules'' (Entries [File ''c.ts''])]) =
   Inr [resolve dir ''a.ts'']"
proof (intro conjI impI)
  assume wf: "wf_listing l" and run: "readFilesRecursively dir l = Inr files"
  show "set files \<inter> set (underDenied dir l) = {}"
  proof (rule ccontr)
    assume "set files \<inter> set (underDenied dir l) \<noteq> {}"
    then obtain p where sel: "p \<in> set files" and den: "p \<in> set (underDenied dir l)"
      by blast
    from wf run sel obtain ns f where a: "reaches dir ns f p" "set ns \<inter> ignoredDirs = {}"
      using selected_reaches(1) by blast
    from wf den obtain ms g where b: "reaches dir ms g p" "set ms \<inter> ignoredDirs \<noteq> {}"
      using denied_reaches(1) by blast
    from a(1) b(1) have "ns = ms" by (rule reaches_unique)
    with a(2) b(2) show False by simp
  qed
next
  show "readFilesRecursively dir
     (Entries [File ''a.ts'', File ''b.png'',
               Directory ''node_modules'' (Entries [File ''c.ts''])]) =
   Inr [resolve dir ''a.ts'']"
    by (simp add: extname_examples allowedExtensions_def ignoredDirs_def)
qed

theorem denied_directory_never_selected_witness:
  "wf_listing
     (Entries [File ''a.ts'',
               Directory ''src'' (Entries [File ''m.ts'',
                                            Directory ''dist'' (Entries [File ''m.js''])]),
               Directory ''node_modules''
                 (Entries [Directory ''pkg'' (Entries [File ''c.ts''])])]) \<and>
   readFilesRecursively ''/repo''
     (Entries [File ''a.ts'',
               Directory ''src'' (Entries [File ''m.ts'',
                                            Directory ''dist'' (Entries [File ''m.js''])]),
               Directory ''node_modules''
                 (Entries [Directory ''pkg'' (Entries [File ''c.ts''])])]) =
     Inr [''/repo/a.ts'', ''/repo/src/m.ts''] \<and>
   underDenied ''/repo''
     (Entries [File ''a.ts'',
               Directory ''src'' (Entries [File ''m.ts'',
                                            Directory ''dist'' (Entries [File ''m.js''])]),
               Directory ''node_modules''
                 (Entries [Directory ''pkg'' (Entries [File ''c.ts''])])]) =
     [''/repo/src/dist/m.js'', ''/repo/node_modules/pkg/c.ts''] \<and>
   set [''/repo/a.ts'', ''/repo/src/m.ts''] \<inter>
   set (underDenied ''/repo''
     (Entries [File ''a.ts'',
               Directory ''src'' (Entries [File ''m.ts'',
                                            Directory ''dist'' (Entries [File ''m.js''])]),
               Directory ''node_modules''
                 (Entries [Directory ''pkg'' (Entries [File ''c.ts''])])])) = {}"
proof -
  let ?t = "Entries [File ''a.ts'',
               Directory ''src'' (Entries [File ''m.ts'',
                                            Directory ''dist'' (Entries [File ''m.js''])]),
               Directory ''node_modules''
                 (Entries [Directory ''pkg'' (Entries [File ''c.ts''])])]"
  have wf: "wf_listing ?t"
    by code_simp
  have run: "readFilesRecursively ''/repo'' ?t = Inr [''/repo/a.ts'', ''/repo/src/m.ts'']"
    by code_simp
  have den: "underDenied ''/repo'' ?t =
      [''/repo/src/dist/m.js'', ''/repo/node_modules/pkg/c.ts'']"
    by code_simp
  from denied_directory_never_selected
    [of ?t "''/repo''" "[''/repo/a.ts'', ''/repo/src/m.ts'']"] wf run
  have "set [''/repo/a.ts'', ''/repo/src/m.ts''] \<inter> set (underDenied ''/repo'' ?t) = {}"
    by blast
  with wf run den show ?thesis
    by blast
qed

text \<open>
  The names compared with \<open>ignoredDirs\<close> are those of the entries met below the root. The
  root itself is listed whatever it is called.
\<close>

lemma root_name_not_checked:
  "readFilesRecursively ''/work/tmp'' (Entries [File ''a.ts'']) = Inr [''/work/tmp/a.ts'']"
  by code_simp

subsection \<open>Failure of a listing\<close>

lemma traversal_outcome:
  "case readFilesRecursively dir l of
     Inl err \<Rightarrow> failedListings l \<noteq> [] \<and> err = hd (failedListings l)
   | Inr files \<Rightarrow> failedListings l = []"
  "case mapEntry dir entry of
     Inl err \<Rightarrow> failedListingsEntry entry \<noteq> [] \<and> err = hd (failedListingsEntry entry)
   | Inr files \<Rightarrow> failedListingsEntry entry = []"
  "case promiseAll dir entries of
     Inl err \<Rightarrow>
       failedListingsEntries entries \<noteq> [] \<and> err = hd (failedListingsEntries entries)
   | Inr fss \<Rightarrow> failedListingsEntries entries = []"
  by (induction dir l and dir entry and dir entries
      rule: readFilesRecursively_mapEntry_promiseAll.induct)
    (auto simp: Let_def split: sum.splits)

text \<open>
  C4. On every directory tree, if a listing issued by the traversal fails, the call
  returns no list: it throws, and what it throws is the error of such a listing.
\<close>

theorem listing_failure_aborts:
  "failedListings l \<noteq> [] \<Longrightarrow>
     \<exists>err\<in>set (failedListings l). readFilesRecursively dir l = Inl err"
  using traversal_outcome(1) [where dir = dir and l = l]
  by (cases "readFilesRecursively dir l") auto

theorem listing_failure_aborts_witness:
  "failedListings
     (Entries [File ''a.ts'',
               Directory ''.git'' (ReaddirError (ExternalError ''EPERM'')),
               Directory ''src'' (Entries [File ''m.ts'',
                 Directory ''gen'' (ReaddirError (ExternalError ''EACCES''))])]) =
     [ExternalError ''EACCES''] \<and>
   readFilesRecursively ''/repo''
     (Entries [File ''a.ts'',
               Directory ''.git'' (ReaddirError (ExternalError ''EPERM'')),
               Directory ''src'' (Entries [File ''m.ts'',
                 Directory ''gen'' (ReaddirError (ExternalError ''EACCES''))])]) =
     Inl (ExternalError ''EACCES'')"
proof -
  let ?t = "Entries [File ''a.ts'',
               Directory ''.git'' (ReaddirError (ExternalError ''EPERM'')),
               Directory ''src'' (Entries [File ''m.ts'',
                 Directory ''gen'' (ReaddirError (ExternalError ''EACCES''))])]"
  have failed: "failedListings ?t = [ExternalError ''EACCES'']"
    by code_simp
  then have "failedListings ?t \<noteq> []"
    by simp
  from listing_failure_aborts [OF this, of "''/repo''"]
  obtain err where mem: "err \<in> set (failedListings ?t)"
    and thrown: "readFilesRecursively ''/repo'' ?t = Inl err"
    by blast
  from mem have "err = ExternalError ''EACCES''"
    unfolding failed by simp
  with thrown have "readFilesRecursively ''/repo'' ?t = Inl (ExternalError ''EACCES'')"
    by (simp only:)
  with failed show ?thesis
    by (rule conjI)
qed

subsection \<open>The file named \<open>.dockerignore\<close>\<close>

text \<open>
  C8. A non-directory entry is selected exactly when \<open>path.extname\<close> of its name is in
  \<open>allowedExtensions\<close> (\<open>file_selected_iff\<close>). The set lists \<open>'.dockerignore'\<close>, but
  \<open>path.extname\<close> of the name \<open>.dockerignore\<close> is the empty string, the only dot being
  the first character (\<open>extname_dotfile\<close>): a directory holding just that file yields the
  empty list.
\<close>

theorem dockerignore_not_selected:
  "extname ''.dockerignore'' = [] \<and>
   ''.dockerignore'' \<in> allowedExtensions \<and>
   readFilesRecursively dir (Entries [File ''.dockerignore'']) = Inr []"
  by (simp add: extname_examples allowedExtensions_def)


section \<open>Properties of the Index Provisioner\<close>

subsection \<open>When a create-index request is issued\<close>

lemma createRequests_append:
  "createRequests (xs @ ys) = createRequests xs @ createRequests ys"
  by (induction xs rule: createRequests.induct) simp_all

lemma waitLoop_createRequests:
  "createRequests (events (snd (waitLoop n pc indexName w))) = createRequests (events w)"
  by (induction n arbitrary: w)
    (auto simp: emit_def createRequests_append Let_def split: prod.splits sum.splits)

lemma logAndRethrow_events:
  "createRequests (events (snd (logAndRethrow cw))) = createRequests (events (snd cw))"
  by (cases cw rule: logAndRethrow.cases) (simp_all add: emit_def createRequests_append)

lemma tryInitialize_createRequests:
  assumes "listIndexes pc (pinecone w) = (Inr response, v)"
  shows "createRequests (events (snd (tryInitialize n indexName pc w))) =
     createRequests (events w) @
     (if listed indexName response then [] else [createOptions indexName])"
proof (cases "listed indexName response")
  case True
  with assms show ?thesis
    by (auto simp: tryInitialize_def listed_def Let_def emit_def waitLoop_createRequests
        createRequests_append split: option.splits)
next
  case False
  obtain r v' where c: "createIndex pc (createOptions indexName) v = (r, v')"
    by (cases "createIndex pc (createOptions indexName) v")
  with False assms show ?thesis
    by (cases r)
      (auto simp: tryInitialize_def listed_def Let_def emit_def waitLoop_createRequests
        createRequests_append split: option.splits)
qed

text \<open>
  C5. When \<open>listIndexes\<close> answers, then however long the wait that follows is observed: if
  the answer has an index of the given name, the call issues no create-index request;
  if it has none, it issues exactly one, for that name, with dimension 1536 and the
  serverless placement \<open>aws\<close> / \<open>us-east-1\<close>.
\<close>

theorem create_only_when_absent:
  "listIndexes pc (pinecone w) = (Inr response, v) \<Longrightarrow>
   createRequests (events (snd (initializePineconeIndex n indexName pc (fresh w)))) =
     (if listed indexName response then []
      else [\<lparr>create_name = indexName, dimension = 1536,
             spec_serverless = \<lparr>cloud = ''aws'', region = ''us-east-1''\<rparr>\<rparr>])"
  using tryInitialize_createRequests [of pc "fresh w" response v n indexName]
  by (simp add: initializePineconeIndex_def logAndRethrow_events fresh_def createOptions_def)

theorem create_only_when_absent_witness:
  "createRequests (events (snd (initializePineconeIndex 3 ''docs'' exampleIndexer
       (fresh (exampleWorld ([''docs'', ''code''], 1)))))) = [] \<and>
   createRequests (events (snd (initializePineconeIndex 3 ''docs'' exampleIndexer
       (fresh (exampleWorld ([''code''], 1)))))) =
     [\<lparr>create_name = ''docs'', dimension = 1536,
       spec_serverless = \<lparr>cloud = ''aws'', region = ''us-east-1''\<rparr>\<rparr>]"
proof -
  have a: "listIndexes exampleIndexer (pinecone (exampleWorld ([''docs'', ''code''], 1::nat))) =
      (Inr \<lparr>indexes = Some [\<lparr>index_name = ''docs'', status = \<lparr>ready = True\<rparr>\<rparr>,
                              \<lparr>index_name = ''code'', status = \<lparr>ready = True\<rparr>\<rparr>]\<rparr>,
       ([''docs'', ''code''], 1))"
    by (simp add: exampleIndexer_def exampleWorld_def)
  have b: "listIndexes exampleIndexer (pinecone (exampleWorld ([''code''], 1::nat))) =
      (Inr \<lparr>indexes = Some [\<lparr>index_name = ''code'', status = \<lparr>ready = True\<rparr>\<rparr>]\<rparr>,
       ([''code''], 1))"
    by (simp add: exampleIndexer_def exampleWorld_def)
  from create_only_when_absent [OF a, of 3 "''docs''"]
    create_only_when_absent [OF b, of 3 "''docs''"]
  show ?thesis
    by (simp add: listed_def)
qed

text \<open>
  C10. When the answer of \<open>listIndexes\<close> has no field \<open>indexes\<close>, the call goes on as for an
  absent index: the create-index request follows the listing at once, and the call
  throws only what \<open>createIndex\<close> or a later poll throws.
\<close>

theorem missing_indexes_field_creates:
  "listIndexes pc (pinecone w) = (Inr response, v) \<Longrightarrow> indexes response = None \<Longrightarrow>
   initializePineconeIndex n indexName pc (fresh w) =
     logAndRethrow
       (case createIndex pc (createOptions indexName) v of
          (Inl err, v') \<Rightarrow>
            (Rejected err,
             (fresh w)\<lparr>pinecone := v',
                      events := [ListIndexes, CreateIndex (createOptions indexName)]\<rparr>)
        | (Inr u, v') \<Rightarrow>
            waitLoop n pc indexName
              ((fresh w)\<lparr>pinecone := v',
                        events := [ListIndexes, CreateIndex (createOptions indexName)]\<rparr>))"
  by (auto simp: initializePineconeIndex_def tryInitialize_def fresh_def emit_def Let_def
      split: prod.splits sum.splits)

theorem missing_indexes_field_creates_witness:
  "initializePineconeIndex 3 ''docs'' bareIndexer (fresh (exampleWorld ([], 1))) =
     (Fulfilled,
      \<lparr>fs = (), openai = (), pinecone = ([''docs''], 0),
       events = [ListIndexes,
                 CreateIndex \<lparr>create_name = ''docs'', dimension = 1536,
                   spec_serverless = \<lparr>cloud = ''aws'', region = ''us-east-1''\<rparr>\<rparr>,
                 DescribeIndex ''docs'',
                 ConsoleLog ''Waiting for Pinecone index 'docs' to be ready...'',
                 SetTimeout 2000,
                 DescribeIndex ''docs'']\<rparr>)"
proof -
  have a: "listIndexes bareIndexer (pinecone (exampleWorld ([], 1::nat))) =
      (Inr \<lparr>indexes = None\<rparr>, ([], 1))"
    by (simp add: bareIndexer_def exampleIndexer_def exampleWorld_def)
  have b: "indexes \<lparr>indexes = None\<rparr> = None"
    by simp
  have c: "createIndex bareIndexer (createOptions ''docs'') ([], 1::nat) = (Inr (), ([''docs''], 1))"
    by (simp add: bareIndexer_def exampleIndexer_def createOptions_def)
  have d: "waitLoop 3 bareIndexer ''docs''
      ((fresh (exampleWorld ([], 1::nat)))\<lparr>pinecone := ([''docs''], 1),
         events := [ListIndexes, CreateIndex (createOptions ''docs'')]\<rparr>) =
     (Fulfilled,
      \<lparr>fs = (), openai = (), pinecone = ([''docs''], 0),
       events = [ListIndexes, CreateIndex (createOptions ''docs''),
                 DescribeIndex ''docs'',
                 ConsoleLog (waitingMessage ''docs''),
                 SetTimeout 2000,
                 DescribeIndex ''docs'']\<rparr>)"
    by (simp add: numeral_3_eq_3 bareIndexer_def exampleIndexer_def exampleWorld_def fresh_def emit_def)
  have e: "waitingMessage ''docs'' = ''Waiting for Pinecone index 'docs' to be ready...''"
    by (simp add: waitingMessage_def quote_def)
  from missing_indexes_field_creates [OF a b, of 3 "''docs''"] c d e
  show ?thesis
    by (simp add: createOptions_def)
qed


subsection \<open>The wait for readiness\<close>

lemma pollResult_Suc:
  "pollResult pc indexName v (Suc k) =
     pollResult pc indexName (snd (describeIndex pc indexName v)) k"
  by (simp add: pollResult_def)

lemma waitLoop_waiting:
  "(\<forall>k<n. \<not> leavesLoop (pollResult pc indexName (pinecone w) k)) \<Longrightarrow>
   waitLoop n pc indexName w =
     (Waiting, w\<lparr>pinecone := pollState pc indexName (pinecone w) n,
                 events := events w @ concat (replicate n (waitingRound indexName))\<rparr>)"
proof (induction n arbitrary: w)
  case 0
  then show ?case by simp
next
  case (Suc n)
  obtain r v where d: "describeIndex pc indexName (pinecone w) = (r, v)"
    by (cases "describeIndex pc indexName (pinecone w)")
  from Suc.prems have "\<not> leavesLoop (pollResult pc indexName (pinecone w) 0)"
    by blast
  with d obtain desc where r: "r = Inr desc" and nr: "\<not> ready (status desc)"
    by (cases r) (auto simp: pollResult_def)
  let ?w' = "emit [ConsoleLog (waitingMessage indexName), SetTimeout 2000]
               (emit [DescribeIndex indexName] (w\<lparr>pinecone := v\<rparr>))"
  have "\<forall>k<n. \<not> leavesLoop (pollResult pc indexName (pinecone ?w') k)"
    using Suc.prems d by (auto simp: emit_def pollResult_Suc)
  from Suc.IH [OF this] d r nr show ?case
    by (simp add: emit_def waitingRound_def)
qed

lemma waitLoop_left:
  "(\<forall>j<k. \<not> leavesLoop (pollResult pc indexName (pinecone w) j)) \<Longrightarrow>
   leavesLoop (pollResult pc indexName (pinecone w) k) \<Longrightarrow> k < n \<Longrightarrow>
   waitLoop n pc indexName w =
     (leftWith (pollResult pc indexName (pinecone w) k),
      w\<lparr>pinecone := pollState pc indexName (pinecone w) (Suc k),
        events := events w @ concat (replicate k (waitingRound indexName)) @
                  [DescribeIndex indexName]\<rparr>)"
proof (induction k arbitrary: w n)
  case 0
  then obtain n' where n: "n = Suc n'"
    by (cases n) auto
  obtain r v where d: "describeIndex pc indexName (pinecone w) = (r, v)"
    by (cases "describeIndex pc indexName (pinecone w)")
  with 0 n show ?case
    by (cases r) (auto simp: pollResult_def emit_def)
next
  case (Suc k)
  then obtain n' where n: "n = Suc n'" and n': "k < n'"
    by (cases n) auto
  obtain r v where d: "describeIndex pc indexName (pinecone w) = (r, v)"
    by (cases "describeIndex pc indexName (pinecone w)")
  from Suc.prems(1) have "\<not> leavesLoop (pollResult pc indexName (pinecone w) 0)"
    by blast
  with d obtain desc where r: "r = Inr desc" and nr: "\<not> ready (status desc)"
    by (cases r) (auto simp: pollResult_def)
  let ?w' = "emit [ConsoleLog (waitingMessage indexName), SetTimeout 2000]
               (emit [DescribeIndex indexName] (w\<lparr>pinecone := v\<rparr>))"
  have a: "\<forall>j<k. \<not> leavesLoop (pollResult pc indexName (pinecone ?w') j)"
    using Suc.prems(1) d by (auto simp: emit_def pollResult_Suc)
  have b: "leavesLoop (pollResult pc indexName (pinecone ?w') k)"
    using Suc.prems(2) d by (simp add: emit_def pollResult_Suc)
  have step: "waitLoop n pc indexName w = waitLoop n' pc indexName ?w'"
    using n d r nr by simp
  show ?case
    unfolding step Suc.IH [OF a b n']
    using d by (simp add: emit_def waitingRound_def pollResult_Suc)
qed

lemma waitLoop_terminates_iff:
  "(\<exists>n. fst (waitLoop n pc indexName w) \<noteq> Waiting) =
   (\<exists>k. leavesLoop (pollResult pc indexName (pinecone w) k))"
proof
  assume "\<exists>n. fst (waitLoop n pc indexName w) \<noteq> Waiting"
  then obtain n where n: "fst (waitLoop n pc indexName w) \<noteq> Waiting" ..
  show "\<exists>k. leavesLoop (pollResult pc indexName (pinecone w) k)"
  proof (rule ccontr)
    assume "\<not> (\<exists>k. leavesLoop (pollResult pc indexName (pinecone w) k))"
    then have "\<forall>k<n. \<not> leavesLoop (pollResult pc indexName (pinecone w) k)"
      by blast
    from waitLoop_waiting [OF this] n show False by simp
  qed
next
  assume "\<exists>k. leavesLoop (pollResult pc indexName (pinecone w) k)"
  then obtain k where k: "leavesLoop (pollResult pc indexName (pinecone w) k)"
    and least: "\<forall>j<k. \<not> leavesLoop (pollResult pc indexName (pinecone w) j)"
    using exists_least_iff [of "\<lambda>k. leavesLoop (pollResult pc indexName (pinecone w) k)"]
    by blast
  from waitLoop_left [OF least k, of "Suc k"]
  have "fst (waitLoop (Suc k) pc indexName w) = leftWith (pollResult pc indexName (pinecone w) k)"
    by simp
  moreover from k have "leftWith (pollResult pc indexName (pinecone w) k) \<noteq> Waiting"
    by (cases "pollResult pc indexName (pinecone w) k") auto
  ultimately show "\<exists>n. fst (waitLoop n pc indexName w) \<noteq> Waiting"
    by metis
qed


text \<open>Once the listing has answered and the index is listed or created, the call is the wait.\<close>

lemma initialize_reaches_wait:
  assumes "listIndexes pc (pinecone w) = (Inr response, v1)"
    and "(listed indexName response \<and> v = v1 \<and> pre = [ListIndexes]) \<or>
         (\<not> listed indexName response \<and>
          createIndex pc (createOptions indexName) v1 = (Inr (), v) \<and>
          pre = [ListIndexes, CreateIndex (createOptions indexName)])"
  shows "initializePineconeIndex n indexName pc (fresh w) =
     logAndRethrow (waitLoop n pc indexName (w\<lparr>pinecone := v, events := pre\<rparr>))"
  using assms
  by (auto simp: initializePineconeIndex_def tryInitialize_def listed_def fresh_def emit_def
      Let_def split: option.splits)

lemma logAndRethrow_fst: "fst (logAndRethrow cw) = fst cw"
  by (cases cw rule: logAndRethrow.cases) simp_all

text \<open>
  C6. In a call of \<open>initializePineconeIndex\<close> whose listing answers, whether the index is
  listed or is absent and its creation is accepted, the call then polls \<open>describeIndex\<close>:
  it ends, after some number of polls, exactly when some poll is answered by a rejection
  or by a description that is ready. As long as no poll has been so answered the call is
  still waiting, whatever the number of polls, and after the listing (and the creation)
  it has done nothing but these polls, each followed by the notice and one timer of
  2000 ms. When poll \<open>k\<close> is the first so answered, the call ends there, normally or by the
  rejection (which it prints), after \<open>k\<close> such rounds and one more \<open>describeIndex\<close>.
\<close>

theorem provisioner_waits_until_ready:
  assumes "listIndexes pc (pinecone w) = (Inr response, v1)"
    and "(listed indexName response \<and> v = v1 \<and> pre = [ListIndexes]) \<or>
         (\<not> listed indexName response \<and>
          createIndex pc (createOptions indexName) v1 = (Inr (), v) \<and>
          pre = [ListIndexes, CreateIndex (createOptions indexName)])"
  shows
  "((\<exists>n. fst (initializePineconeIndex n indexName pc (fresh w)) \<noteq> Waiting) =
    (\<exists>k. leavesLoop (pollResult pc indexName v k))) \<and>
   ((\<forall>k<n. \<not> leavesLoop (pollResult pc indexName v k)) \<longrightarrow>
    initializePineconeIndex n indexName pc (fresh w) =
      (Waiting,
       w\<lparr>pinecone := pollState pc indexName v n,
         events := pre @ concat (replicate n (waitingRound indexName))\<rparr>)) \<and>
   ((\<forall>j<k. \<not> leavesLoop (pollResult pc indexName v j)) \<and>
    leavesLoop (pollResult pc indexName v k) \<and> k < n \<longrightarrow>
    initializePineconeIndex n indexName pc (fresh w) =
      (leftWith (pollResult pc indexName v k),
       w\<lparr>pinecone := pollState pc indexName v (Suc k),
         events := pre @ concat (replicate k (waitingRound indexName)) @
                   [DescribeIndex indexName] @
                   (case pollResult pc indexName v k of
                      Inl err \<Rightarrow> [ConsoleError ''Error initializing Pinecone index:'' err]
                    | Inr indexDescription \<Rightarrow> [])\<rparr>))"
proof -
  let ?w0 = "w\<lparr>pinecone := v, events := pre\<rparr>"
  have start: "initializePineconeIndex n indexName pc (fresh w) =
      logAndRethrow (waitLoop n pc indexName ?w0)" for n
    using assms by (rule initialize_reaches_wait)
  have iff: "(\<exists>n. fst (initializePineconeIndex n indexName pc (fresh w)) \<noteq> Waiting) =
      (\<exists>k. leavesLoop (pollResult pc indexName v k))"
    using waitLoop_terminates_iff [of pc indexName ?w0] by (simp add: start logAndRethrow_fst)
  have waiting: "initializePineconeIndex n indexName pc (fresh w) =
      (Waiting,
       w\<lparr>pinecone := pollState pc indexName v n,
         events := pre @ concat (replicate n (waitingRound indexName))\<rparr>)"
    if "\<forall>k<n. \<not> leavesLoop (pollResult pc indexName v k)"
    using waitLoop_waiting [of n pc indexName ?w0] that by (simp add: start)
  have left: "initializePineconeIndex n indexName pc (fresh w) =
      (leftWith (pollResult pc indexName v k),
       w\<lparr>pinecone := pollState pc indexName v (Suc k),
         events := pre @ concat (replicate k (waitingRound indexName)) @
                   [DescribeIndex indexName] @
                   (case pollResult pc indexName v k of
                      Inl err \<Rightarrow> [ConsoleError ''Error initializing Pinecone index:'' err]
                    | Inr indexDescription \<Rightarrow> [])\<rparr>)"
    if "\<forall>j<k. \<not> leavesLoop (pollResult pc indexName v j)"
      "leavesLoop (pollResult pc indexName v k)" "k < n"
    using waitLoop_left [of k pc indexName ?w0 n] that
    by (cases "pollResult pc indexName v k") (simp_all add: start emit_def)
  from iff waiting left show ?thesis
    by blast
qed


theorem provisioner_waits_until_ready_witness:
  "initializePineconeIndex 2 ''docs'' exampleIndexer (fresh (exampleWorld ([''docs''], 2))) =
     (Waiting,
      \<lparr>fs = (), openai = (), pinecone = ([''docs''], 0),
       events = [ListIndexes,
                 DescribeIndex ''docs'',
                 ConsoleLog ''Waiting for Pinecone index 'docs' to be ready...'',
                 SetTimeout 2000,
                 DescribeIndex ''docs'',
                 ConsoleLog ''Waiting for Pinecone index 'docs' to be ready...'',
                 SetTimeout 2000]\<rparr>) \<and>
   initializePineconeIndex 5 ''docs'' exampleIndexer (fresh (exampleWorld ([''docs''], 2))) =
     (Fulfilled,
      \<lparr>fs = (), openai = (), pinecone = ([''docs''], 0),
       events = [ListIndexes,
                 DescribeIndex ''docs'',
                 ConsoleLog ''Waiting for Pinecone index 'docs' to be ready...'',
                 SetTimeout 2000,
                 DescribeIndex ''docs'',
                 ConsoleLog ''Waiting for Pinecone index 'docs' to be ready...'',
                 SetTimeout 2000,
                 DescribeIndex ''docs'']\<rparr>) \<and>
   (\<exists>n. fst (initializePineconeIndex n ''docs'' exampleIndexer
              (fresh (exampleWorld ([''docs''], 2)))) \<noteq> Waiting) \<and>
   initializePineconeIndex 3 ''docs'' exampleIndexer (fresh (exampleWorld ([], 1))) =
     (Fulfilled,
      \<lparr>fs = (), openai = (), pinecone = ([''docs''], 0),
       events = [ListIndexes,
                 CreateIndex \<lparr>create_name = ''docs'', dimension = 1536,
                   spec_serverless = \<lparr>cloud = ''aws'', region = ''us-east-1''\<rparr>\<rparr>,
                 DescribeIndex ''docs'',
                 ConsoleLog ''Waiting for Pinecone index 'docs' to be ready...'',
                 SetTimeout 2000,
                 DescribeIndex ''docs'']\<rparr>)"
proof -
  let ?w = "exampleWorld ([''docs''], 2::nat) :: (unit, unit, string list \<times> nat) world"
  let ?u = "exampleWorld ([], 1::nat) :: (unit, unit, string list \<times> nat) world"
  let ?resp = "\<lparr>indexes = Some [\<lparr>index_name = ''docs'', status = \<lparr>ready = True\<rparr>\<rparr>]\<rparr>"
  let ?v = "([''docs''], 2::nat)"
  let ?v' = "([''docs''], 1::nat)"
  have msg: "waitingMessage ''docs'' = ''Waiting for Pinecone index 'docs' to be ready...''"
    by (simp add: waitingMessage_def quote_def)
  have rounds: "concat (replicate 2 (waitingRound ''docs'')) =
      [DescribeIndex ''docs'', ConsoleLog (waitingMessage ''docs''), SetTimeout 2000,
       DescribeIndex ''docs'', ConsoleLog (waitingMessage ''docs''), SetTimeout 2000]"
    "concat (replicate (Suc 0) (waitingRound ''docs'')) =
      [DescribeIndex ''docs'', ConsoleLog (waitingMessage ''docs''), SetTimeout 2000]"
    by (simp_all add: numeral_2_eq_2 waitingRound_def)
  have list: "listIndexes exampleIndexer (pinecone ?w) = (Inr ?resp, ?v)"
    by (simp add: exampleIndexer_def exampleWorld_def)
  have branch: "(listed ''docs'' ?resp \<and> ?v = ?v \<and> [ListIndexes] = [ListIndexes]) \<or>
      (\<not> listed ''docs'' ?resp \<and>
       createIndex exampleIndexer (createOptions ''docs'') ?v = (Inr (), ?v) \<and>
       [ListIndexes] = [ListIndexes, CreateIndex (createOptions ''docs'')])"
    by (simp add: listed_def)
  have p0: "pollResult exampleIndexer ''docs'' ?v 0 =
      Inr \<lparr>index_name = ''docs'', status = \<lparr>ready = False\<rparr>\<rparr>"
    by (simp add: pollResult_def exampleIndexer_def)
  have p1: "pollResult exampleIndexer ''docs'' ?v (Suc 0) =
      Inr \<lparr>index_name = ''docs'', status = \<lparr>ready = False\<rparr>\<rparr>"
    by (simp add: pollResult_def exampleIndexer_def)
  have p2: "pollResult exampleIndexer ''docs'' ?v 2 =
      Inr \<lparr>index_name = ''docs'', status = \<lparr>ready = True\<rparr>\<rparr>"
    by (simp add: numeral_2_eq_2 pollResult_def exampleIndexer_def)
  have s2: "pollState exampleIndexer ''docs'' ?v 2 = ([''docs''], 0)"
    by (simp add: numeral_2_eq_2 exampleIndexer_def)
  have s3: "pollState exampleIndexer ''docs'' ?v (Suc 2) = ([''docs''], 0)"
    by (simp add: numeral_2_eq_2 exampleIndexer_def)
  have before: "\<forall>j<2. \<not> leavesLoop (pollResult exampleIndexer ''docs'' ?v j)"
    using p0 p1 by (auto simp: less_Suc_eq numeral_2_eq_2)
  have at: "leavesLoop (pollResult exampleIndexer ''docs'' ?v 2)"
    using p2 by simp
  note inst = provisioner_waits_until_ready [OF list branch, where k = 2]
  from inst [where n = 2] before
  have a: "initializePineconeIndex 2 ''docs'' exampleIndexer (fresh ?w) =
      (Waiting,
       ?w\<lparr>pinecone := pollState exampleIndexer ''docs'' ?v 2,
          events := [ListIndexes] @ concat (replicate 2 (waitingRound ''docs''))\<rparr>)"
    by blast
  from inst [where n = 5] before at
  have b: "initializePineconeIndex 5 ''docs'' exampleIndexer (fresh ?w) =
      (leftWith (pollResult exampleIndexer ''docs'' ?v 2),
       ?w\<lparr>pinecone := pollState exampleIndexer ''docs'' ?v (Suc 2),
          events := [ListIndexes] @ concat (replicate 2 (waitingRound ''docs'')) @
            [DescribeIndex ''docs''] @
            (case pollResult exampleIndexer ''docs'' ?v 2 of
               Inl err \<Rightarrow> [ConsoleError ''Error initializing Pinecone index:'' err]
             | Inr indexDescription \<Rightarrow> [])\<rparr>)"
    by simp
  from inst [where n = 0] at
  have c: "\<exists>n. fst (initializePineconeIndex n ''docs'' exampleIndexer (fresh ?w)) \<noteq> Waiting"
    by blast
  have list': "listIndexes exampleIndexer (pinecone ?u) = (Inr \<lparr>indexes = Some []\<rparr>, ([], 1))"
    by (simp add: exampleIndexer_def exampleWorld_def)
  have branch': "(listed ''docs'' \<lparr>indexes = Some []\<rparr> \<and> ?v' = ([], 1) \<and>
       [ListIndexes, CreateIndex (createOptions ''docs'')] = [ListIndexes]) \<or>
      (\<not> listed ''docs'' \<lparr>indexes = Some []\<rparr> \<and>
       createIndex exampleIndexer (createOptions ''docs'') ([], 1) = (Inr (), ?v') \<and>
       [ListIndexes, CreateIndex (createOptions ''docs'')] =
       [ListIndexes, CreateIndex (createOptions ''docs'')])"
    by (simp add: listed_def exampleIndexer_def createOptions_def)
  have q0: "pollResult exampleIndexer ''docs'' ?v' 0 =
      Inr \<lparr>index_name = ''docs'', status = \<lparr>ready = False\<rparr>\<rparr>"
    by (simp add: pollResult_def exampleIndexer_def)
  have q1: "pollResult exampleIndexer ''docs'' ?v' (Suc 0) =
      Inr \<lparr>index_name = ''docs'', status = \<lparr>ready = True\<rparr>\<rparr>"
    by (simp add: pollResult_def exampleIndexer_def)
  have t2: "pollState exampleIndexer ''docs'' ?v' (Suc (Suc 0)) = ([''docs''], 0)"
    by (simp add: exampleIndexer_def)
  have before': "\<forall>j<Suc 0. \<not> leavesLoop (pollResult exampleIndexer ''docs'' ?v' j)"
    using q0 by simp
  have at': "leavesLoop (pollResult exampleIndexer ''docs'' ?v' (Suc 0))"
    using q1 by simp
  from provisioner_waits_until_ready [OF list' branch', where k = "Suc 0" and n = 3] before' at'
  have d: "initializePineconeIndex 3 ''docs'' exampleIndexer (fresh ?u) =
      (leftWith (pollResult exampleIndexer ''docs'' ?v' (Suc 0)),
       ?u\<lparr>pinecone := pollState exampleIndexer ''docs'' ?v' (Suc (Suc 0)),
          events := [ListIndexes, CreateIndex (createOptions ''docs'')] @
            concat (replicate (Suc 0) (waitingRound ''docs'')) @
            [DescribeIndex ''docs''] @
            (case pollResult exampleIndexer ''docs'' ?v' (Suc 0) of
               Inl err \<Rightarrow> [ConsoleError ''Error initializing Pinecone index:'' err]
             | Inr indexDescription \<Rightarrow> [])\<rparr>)"
    by simp
  have a': "initializePineconeIndex 2 ''docs'' exampleIndexer (fresh ?w) =
     (Waiting,
      \<lparr>fs = (), openai = (), pinecone = ([''docs''], 0),
       events = [ListIndexes,
                 DescribeIndex ''docs'',
                 ConsoleLog ''Waiting for Pinecone index 'docs' to be ready...'',
                 SetTimeout 2000,
                 DescribeIndex ''docs'',
                 ConsoleLog ''Waiting for Pinecone index 'docs' to be ready...'',
                 SetTimeout 2000]\<rparr>)"
    unfolding a s2 rounds msg by (simp add: exampleWorld_def)
  have b': "initializePineconeIndex 5 ''docs'' exampleIndexer (fresh ?w) =
     (Fulfilled,
      \<lparr>fs = (), openai = (), pinecone = ([''docs''], 0),
       events = [ListIndexes,
                 DescribeIndex ''docs'',
                 ConsoleLog ''Waiting for Pinecone index 'docs' to be ready...'',
                 SetTimeout 2000,
                 DescribeIndex ''docs'',
                 ConsoleLog ''Waiting for Pinecone index 'docs' to be ready...'',
                 SetTimeout 2000,
                 DescribeIndex ''docs'']\<rparr>)"
    unfolding b s3 p2 rounds msg by (simp add: exampleWorld_def)
  have d': "initializePineconeIndex 3 ''docs'' exampleIndexer (fresh ?u) =
     (Fulfilled,
      \<lparr>fs = (), openai = (), pinecone = ([''docs''], 0),
       events = [ListIndexes,
                 CreateIndex \<lparr>create_name = ''docs'', dimension = 1536,
                   spec_serverless = \<lparr>cloud = ''aws'', region = ''us-east-1''\<rparr>\<rparr>,
                 DescribeIndex ''docs'',
                 ConsoleLog ''Waiting for Pinecone index 'docs' to be ready...'',
                 SetTimeout 2000,
                 DescribeIndex ''docs'']\<rparr>)"
    unfolding d t2 q1 rounds msg by (simp add: exampleWorld_def createOptions_def)
  from a' b' c d' show ?thesis
    by (intro conjI)
qed


section \<open>Properties of the Ingestion Driver\<close>

subsection \<open>Observations of a record of events\<close>

lemma filesRead_append: "filesRead (xs @ ys) = filesRead xs @ filesRead ys"
  by (induction xs rule: filesRead.induct) simp_all

lemma failures_append: "failures (xs @ ys) = failures xs + failures ys"
  by (induction xs rule: failures.induct) simp_all

lemma embedCalls_append: "embedCalls (xs @ ys) = embedCalls xs @ embedCalls ys"
  by (induction xs rule: embedCalls.induct) simp_all

lemma upsertCalls_append: "upsertCalls (xs @ ys) = upsertCalls xs @ upsertCalls ys"
  by (induction xs rule: upsertCalls.induct) simp_all

lemmas observe_append =
  filesRead_append failures_append embedCalls_append upsertCalls_append

subsection \<open>One iteration, and the loop\<close>

lemma tryIndexFile_filesRead:
  "filesRead (events (snd (tryIndexFile d dryrunMode indexName file w))) =
     filesRead (events w) @ [file]"
  by (auto simp: tryIndexFile_def emit_def Let_def observe_append
      split: prod.splits sum.splits list.splits)

lemma tryIndexFile_failures:
  "failures (events (snd (tryIndexFile d dryrunMode indexName file w))) = failures (events w)"
  by (auto simp: tryIndexFile_def emit_def Let_def observe_append
      split: prod.splits sum.splits list.splits)

lemma tryIndexFile_dry:
  "tryIndexFile d True indexName file w =
     (case fs_readFile d file (fs w) of
        (Inl err, f) \<Rightarrow> (Inl err, w\<lparr>fs := f, events := events w @ [ReadFile file]\<rparr>)
      | (Inr content, f) \<Rightarrow>
          (Inr (), w\<lparr>fs := f,
                     events := events w @
                       [ReadFile file, ConsoleLog (''[Dry Run] Indexed file: '' @ file)]\<rparr>))"
  by (auto simp: tryIndexFile_def emit_def Let_def split: prod.splits sum.splits)

lemma indexLoop_filesRead:
  "filesRead (events (snd (indexLoop d dryrunMode indexName files (n, w)))) =
     filesRead (events w) @ files"
proof (induction files arbitrary: n w)
  case Nil
  then show ?case by simp
next
  case (Cons x xs)
  obtain r w' where t: "tryIndexFile d dryrunMode indexName x w = (r, w')"
    by (cases "tryIndexFile d dryrunMode indexName x w")
  with tryIndexFile_filesRead [of d dryrunMode indexName x w]
  have "filesRead (events w') = filesRead (events w) @ [x]"
    by simp
  with t Cons.IH show ?case
    by (cases r) (simp_all add: emit_def observe_append)
qed

lemma indexLoop_count:
  "fst (indexLoop d dryrunMode indexName files (n, w)) +
   failures (events (snd (indexLoop d dryrunMode indexName files (n, w)))) =
     n + failures (events w) + length files"
proof (induction files arbitrary: n w)
  case Nil
  then show ?case by simp
next
  case (Cons x xs)
  obtain r w' where t: "tryIndexFile d dryrunMode indexName x w = (r, w')"
    by (cases "tryIndexFile d dryrunMode indexName x w")
  with tryIndexFile_failures [of d dryrunMode indexName x w]
  have "failures (events w') = failures (events w)"
    by simp
  with t Cons.IH show ?case
    by (cases r) (simp_all add: emit_def observe_append)
qed

subsection \<open>The driver and the account of the specification\<close>

text \<open>
  An iteration of the driver does to the collaborators, asks of them and reports what the
  account of its file says, and so does the loop for the accounts of the list.
\<close>

lemma errorReports_append: "errorReports (xs @ ys) = errorReports xs @ errorReports ys"
  by (induction xs rule: errorReports.induct) simp_all

lemma tryIndexFile_account:
  assumes "tryIndexFile d dryrunMode indexName path w = (res, w')"
    and "accountOf d dryrunMode indexName path (collaborators w) = (a, s')"
  shows "collaborators w' = s'"
    and "res = (case failure a of None \<Rightarrow> Inr () | Some err \<Rightarrow> Inl err)"
    and "errorReports (events w') = errorReports (events w)"
    and "embedCalls (events w') =
           embedCalls (events w) @ (case embedRequest a of None \<Rightarrow> [] | Some r \<Rightarrow> [r])"
    and "upsertCalls (events w') =
           upsertCalls (events w) @
           (case upsertRequest a of None \<Rightarrow> [] | Some r \<Rightarrow> [(indexName, [r])])"
  using assms
  by (auto simp: tryIndexFile_def accountOf_def collaborators_def emit_def Let_def
      contentWithFilePath_def indexRecord_def
      errorReports_append embedCalls_append upsertCalls_append
      split: prod.splits sum.splits list.splits if_splits)


lemma collaborators_emit: "collaborators (emit evs w) = collaborators w"
  by (simp add: collaborators_def emit_def)

lemma indexLoop_accounts:
  "indexLoop d dryrunMode indexName files (n, w) = (n', w') \<Longrightarrow>
   n' + length (failedFiles (accounts d dryrunMode indexName files (collaborators w))) =
     n + length files \<and>
   errorReports (events w') =
     errorReports (events w) @
     map (\<lambda>(path, err). (''Error indexing file '' @ path @ '':'', err))
       (failedFiles (accounts d dryrunMode indexName files (collaborators w))) \<and>
   embedCalls (events w') =
     embedCalls (events w) @
     embedRequests (accounts d dryrunMode indexName files (collaborators w)) \<and>
   upsertCalls (events w') =
     upsertCalls (events w) @
     map (\<lambda>r. (indexName, [r]))
       (upsertRequests (accounts d dryrunMode indexName files (collaborators w)))"
proof (induction files arbitrary: n w)
  case Nil
  then show ?case by simp
next
  case (Cons x xs)
  obtain res w1 where t: "tryIndexFile d dryrunMode indexName x w = (res, w1)"
    by (cases "tryIndexFile d dryrunMode indexName x w")
  obtain a s' where acc: "accountOf d dryrunMode indexName x (collaborators w) = (a, s')"
    by (cases "accountOf d dryrunMode indexName x (collaborators w)")
  note link = tryIndexFile_account [OF t acc]
  show ?case
  proof (cases "failure a")
    case None
    with link(2) have res: "res = Inr ()" by simp
    with t Cons.prems
    have rest: "indexLoop d dryrunMode indexName xs (n + 1, w1) = (n', w')"
      by simp
    from Cons.IH [OF rest] link acc None show ?thesis
      by (simp add: collaborators_emit split: option.splits)
  next
    case (Some err)
    with link(2) have res: "res = Inl err" by simp
    let ?w2 = "emit [ConsoleError (''Error indexing file '' @ x @ '':'') err] w1"
    from res t Cons.prems
    have rest: "indexLoop d dryrunMode indexName xs (n, ?w2) = (n', w')"
      by simp
    have evs: "errorReports (events ?w2) =
        errorReports (events w) @ [(''Error indexing file '' @ x @ '':'', err)]"
      "embedCalls (events ?w2) = embedCalls (events w1)"
      "upsertCalls (events ?w2) = upsertCalls (events w1)"
      using link(3) by (simp_all add: emit_def errorReports_append embedCalls_append
          upsertCalls_append)
    from Cons.IH [OF rest] link acc Some evs show ?thesis
      by (simp add: collaborators_emit split: option.splits)
  qed
qed


lemma indexFiles_accounts:
  "errorReports (events (indexFiles files indexName d dryrunMode (fresh w))) =
     map (\<lambda>(path, err). (''Error indexing file '' @ path @ '':'', err))
       (failedFiles (accounts d dryrunMode indexName files (collaborators w)))"
  "finalCount files indexName d dryrunMode (fresh w) +
     length (failedFiles (accounts d dryrunMode indexName files (collaborators w))) =
     length files"
  "embedCalls (events (indexFiles files indexName d dryrunMode (fresh w))) =
     embedRequests (accounts d dryrunMode indexName files (collaborators w))"
  "upsertCalls (events (indexFiles files indexName d dryrunMode (fresh w))) =
     map (\<lambda>r. (indexName, [r]))
       (upsertRequests (accounts d dryrunMode indexName files (collaborators w)))"
proof -
  obtain n w' where run: "indexLoop d dryrunMode indexName files (0, fresh w) = (n, w')"
    by (cases "indexLoop d dryrunMode indexName files (0, fresh w)")
  have c: "collaborators (fresh w) = collaborators w"
    by (simp add: collaborators_def fresh_def)
  note loop = indexLoop_accounts [OF run, unfolded c]
  from loop run show
    "errorReports (events (indexFiles files indexName d dryrunMode (fresh w))) =
     map (\<lambda>(path, err). (''Error indexing file '' @ path @ '':'', err))
       (failedFiles (accounts d dryrunMode indexName files (collaborators w)))"
    by (simp add: indexFiles_def emit_def fresh_def errorReports_append)
  from loop run show
    "finalCount files indexName d dryrunMode (fresh w) +
     length (failedFiles (accounts d dryrunMode indexName files (collaborators w))) =
     length files"
    by (simp add: finalCount_def)
  from loop run show
    "embedCalls (events (indexFiles files indexName d dryrunMode (fresh w))) =
     embedRequests (accounts d dryrunMode indexName files (collaborators w))"
    by (simp add: indexFiles_def emit_def fresh_def embedCalls_append)
  from loop run show
    "upsertCalls (events (indexFiles files indexName d dryrunMode (fresh w))) =
     map (\<lambda>r. (indexName, [r]))
       (upsertRequests (accounts d dryrunMode indexName files (collaborators w)))"
    by (simp add: indexFiles_def emit_def fresh_def upsertCalls_append)
qed

subsection \<open>Failures of single files\<close>

text \<open>
  C2. For every list of files and whatever the collaborators answer, given that
  \<open>pc.index(indexName)\<close> of line 106 returns: a run reads every file of the list, in
  order, also after files that failed; the errors it reports are exactly those of the
  files whose read, embedding or upsert was rejected, each with the rejection, in order;
  the final \<open>successfulCount\<close> is the length of the list minus the number of these files;
  and the run ends by printing the summary with that count and the length of the list.
\<close>

theorem per_file_failures_absorbed:
  "filesRead (events (indexFiles files indexName d dryrunMode (fresh w))) = files \<and>
   errorReports (events (indexFiles files indexName d dryrunMode (fresh w))) =
     map (\<lambda>(path, err). (''Error indexing file '' @ path @ '':'', err))
       (failedFiles (accounts d dryrunMode indexName files (collaborators w))) \<and>
   finalCount files indexName d dryrunMode (fresh w) =
     length files -
     length (failedFiles (accounts d dryrunMode indexName files (collaborators w))) \<and>
   length (failedFiles (accounts d dryrunMode indexName files (collaborators w))) \<le>
     length files \<and>
   last (events (indexFiles files indexName d dryrunMode (fresh w))) =
     ConsoleLog
       (summary dryrunMode
          (length files -
           length (failedFiles (accounts d dryrunMode indexName files (collaborators w))))
          (length files) indexName)"
proof -
  obtain n w' where run: "indexLoop d dryrunMode indexName files (0, fresh w) = (n, w')"
    by (cases "indexLoop d dryrunMode indexName files (0, fresh w)")
  from indexLoop_filesRead [of d dryrunMode indexName files 0 "fresh w"] run
  have reads: "filesRead (events (indexFiles files indexName d dryrunMode (fresh w))) = files"
    by (simp add: indexFiles_def emit_def fresh_def filesRead_append)
  note acc = indexFiles_accounts [of files indexName d dryrunMode w]
  from acc(2) have count: "finalCount files indexName d dryrunMode (fresh w) =
     length files -
     length (failedFiles (accounts d dryrunMode indexName files (collaborators w)))"
    and le: "length (failedFiles (accounts d dryrunMode indexName files (collaborators w))) \<le>
     length files"
    by simp_all
  have "last (events (indexFiles files indexName d dryrunMode (fresh w))) =
     ConsoleLog (summary dryrunMode (finalCount files indexName d dryrunMode (fresh w))
       (length files) indexName)"
    using run by (simp add: indexFiles_def finalCount_def emit_def)
  with reads acc(1) count le show ?thesis
    by simp
qed

theorem per_file_failures_absorbed_witness:
  "filesRead (events (indexFiles [''/repo/a.ts'', ''/repo/gone.ts'', ''/repo/b.md''] ''idx''
      exampleDeps False (fresh (exampleWorld emptyStore)))) =
     [''/repo/a.ts'', ''/repo/gone.ts'', ''/repo/b.md''] \<and>
   errorReports (events (indexFiles [''/repo/a.ts'', ''/repo/gone.ts'', ''/repo/b.md''] ''idx''
      exampleDeps False (fresh (exampleWorld emptyStore)))) =
     [(''Error indexing file /repo/gone.ts:'', ExternalError ''ENOENT''),
      (''Error indexing file /repo/b.md:'', ExternalError ''rate limit'')] \<and>
   finalCount [''/repo/a.ts'', ''/repo/gone.ts'', ''/repo/b.md''] ''idx''
      exampleDeps False (fresh (exampleWorld emptyStore)) = 1 \<and>
   last (events (indexFiles [''/repo/a.ts'', ''/repo/gone.ts'', ''/repo/b.md''] ''idx''
      exampleDeps False (fresh (exampleWorld emptyStore)))) =
     ConsoleLog (''Successfully indexed 1 out of 3 files in Pinecone under index '' @
                 quote ''idx'')"
proof -
  let ?files = "[''/repo/a.ts'', ''/repo/gone.ts'', ''/repo/b.md'']"
  let ?w = "exampleWorld emptyStore :: (unit, unit, store) world"
  have failed: "failedFiles (accounts exampleDeps False ''idx'' ?files (collaborators ?w)) =
      [(''/repo/gone.ts'', ExternalError ''ENOENT''),
       (''/repo/b.md'', ExternalError ''rate limit'')]"
    by code_simp
  have s: "summary False (Suc 0) (Suc (Suc (Suc 0))) ''idx'' =
      ''Successfully indexed 1 out of 3 files in Pinecone under index '' @ quote ''idx''"
    by code_simp
  from per_file_failures_absorbed [of ?files "''idx''" exampleDeps False ?w]
  show ?thesis
    unfolding failed using s by simp
qed

subsection \<open>Dry run\<close>

lemma indexLoop_dry:
  "indexLoop d True indexName files (n, w) = (n', w') \<Longrightarrow>
     n' = n + readable (fs_readFile d) files (fs w) \<and>
     openai w' = openai w \<and> pinecone w' = pinecone w \<and>
     embedCalls (events w') = embedCalls (events w) \<and>
     upsertCalls (events w') = upsertCalls (events w)"
proof (induction files arbitrary: n w)
  case Nil
  then show ?case by simp
next
  case (Cons x xs)
  obtain r f where rd: "fs_readFile d x (fs w) = (r, f)"
    by (cases "fs_readFile d x (fs w)")
  show ?case
  proof (cases r)
    case (Inl err)
    with rd Cons.prems have "indexLoop d True indexName xs
        (n, emit [ConsoleError (''Error indexing file '' @ x @ '':'') err]
              (w\<lparr>fs := f, events := events w @ [ReadFile x]\<rparr>)) = (n', w')"
      by (simp add: tryIndexFile_dry)
    from Cons.IH [OF this] rd Inl show ?thesis
      by (simp add: emit_def observe_append)
  next
    case (Inr content)
    with rd Cons.prems have "indexLoop d True indexName xs
        (n + 1, w\<lparr>fs := f, events := events w @
            [ReadFile x, ConsoleLog (''[Dry Run] Indexed file: '' @ x)]\<rparr>) = (n', w')"
      by (simp add: tryIndexFile_dry)
    from Cons.IH [OF this] rd Inr show ?thesis
      by (simp add: observe_append)
  qed
qed

text \<open>
  C3. In a dry run over any list of files there is no call of the embedding service and
  no \<open>upsert\<close>, and the states of both services are left as they were; the files counted
  are exactly those that \<open>readFile\<close> reads, the others are reported as failed. For two
  files of which the first is read and the second is not, the run prints one simulated
  file, one error, and the summary with 1 out of 2.
\<close>

theorem dry_run_no_remote_calls:
  "embedCalls (events (indexFiles files indexName d True (fresh w))) = [] \<and>
   upsertCalls (events (indexFiles files indexName d True (fresh w))) = [] \<and>
   openai (indexFiles files indexName d True (fresh w)) = openai w \<and>
   pinecone (indexFiles files indexName d True (fresh w)) = pinecone w \<and>
   finalCount files indexName d True (fresh w) = readable (fs_readFile d) files (fs w) \<and>
   failures (events (indexFiles files indexName d True (fresh w))) =
     length files - readable (fs_readFile d) files (fs w) \<and>
   (fs_readFile d f1 (fs w) = (Inr content, s1) \<and> fs_readFile d f2 s1 = (Inl err, s2) \<longrightarrow>
    events (indexFiles [f1, f2] indexName d True (fresh w)) =
      [ReadFile f1,
       ConsoleLog (''[Dry Run] Indexed file: '' @ f1),
       ReadFile f2,
       ConsoleError (''Error indexing file '' @ f2 @ '':'') err,
       ConsoleLog (summary True 1 2 indexName)])"
proof -
  obtain n w' where run: "indexLoop d True indexName files (0, fresh w) = (n, w')"
    by (cases "indexLoop d True indexName files (0, fresh w)")
  from indexLoop_dry [OF run]
  have dry: "n = readable (fs_readFile d) files (fs w)" "openai w' = openai w"
    "pinecone w' = pinecone w" "embedCalls (events w') = []" "upsertCalls (events w') = []"
    by (simp_all add: fresh_def)
  from indexLoop_count [of d True indexName files 0 "fresh w"] run
  have count: "n + failures (events w') = length files"
    by (simp add: fresh_def)
  have scenario: "events (indexFiles [f1, f2] indexName d True (fresh w)) =
      [ReadFile f1,
       ConsoleLog (''[Dry Run] Indexed file: '' @ f1),
       ReadFile f2,
       ConsoleError (''Error indexing file '' @ f2 @ '':'') err,
       ConsoleLog (summary True 1 2 indexName)]"
    if "fs_readFile d f1 (fs w) = (Inr content, s1)" "fs_readFile d f2 s1 = (Inl err, s2)"
    using that by (simp add: indexFiles_def tryIndexFile_dry fresh_def emit_def numeral_2_eq_2)
  from run dry count scenario show ?thesis
    by (simp add: indexFiles_def finalCount_def emit_def observe_append)
qed

theorem dry_run_no_remote_calls_witness:
  "finalCount [''/repo/a.ts'', ''/repo/gone.ts''] ''idx'' exampleDeps True
     (fresh (exampleWorld emptyStore)) = 1 \<and>
   length [''/repo/a.ts'', ''/repo/gone.ts''] = 2 \<and>
   upsertCalls (events (indexFiles [''/repo/a.ts'', ''/repo/gone.ts''] ''idx'' exampleDeps True
     (fresh (exampleWorld emptyStore)))) = [] \<and>
   embedCalls (events (indexFiles [''/repo/a.ts'', ''/repo/gone.ts''] ''idx'' exampleDeps True
     (fresh (exampleWorld emptyStore)))) = [] \<and>
   events (indexFiles [''/repo/a.ts'', ''/repo/gone.ts''] ''idx'' exampleDeps True
     (fresh (exampleWorld emptyStore))) =
     [ReadFile ''/repo/a.ts'',
      ConsoleLog ''[Dry Run] Indexed file: /repo/a.ts'',
      ReadFile ''/repo/gone.ts'',
      ConsoleError ''Error indexing file /repo/gone.ts:'' (ExternalError ''ENOENT''),
      ConsoleLog (''Successfully simulated indexing 1 out of 2 files in Pinecone under index '' @
                  quote ''idx'' @ '' (dry run)'')]"
proof -
  let ?w = "exampleWorld emptyStore :: (unit, unit, store) world"
  have r1: "fs_readFile exampleDeps ''/repo/a.ts'' (fs ?w) = (Inr ''let a = 1'', ())"
    by (simp add: exampleDeps_def deterministicDeps_def stateless_def exampleRead_def)
  have r2: "fs_readFile exampleDeps ''/repo/gone.ts'' () = (Inl (ExternalError ''ENOENT''), ())"
    by (simp add: exampleDeps_def deterministicDeps_def stateless_def exampleRead_def)
  have rb: "readable (fs_readFile exampleDeps) [''/repo/a.ts'', ''/repo/gone.ts''] (fs ?w) = 1"
    using r1 r2 by simp
  have s: "summary True 1 2 ''idx'' =
      ''Successfully simulated indexing 1 out of 2 files in Pinecone under index '' @
      quote ''idx'' @ '' (dry run)''"
    by code_simp
  from dry_run_no_remote_calls [of "[''/repo/a.ts'', ''/repo/gone.ts'']" "''idx''" exampleDeps ?w
      "''/repo/a.ts''" "''let a = 1''" "()" "''/repo/gone.ts''" "ExternalError ''ENOENT''" "()"]
    r1 r2
  show ?thesis
    unfolding rb s by simp
qed

subsection \<open>The document and the record\<close>

text \<open>
  C7. In a run of \<open>indexFiles\<close> in real mode over any list of files, the requests made to
  the embedding service are exactly those of the accounts of the files, in order, and
  the upserts are exactly those of their entries, each alone and to the named index.
  For a file that is read, the request of its account is for the text \<open>File path: \<close>,
  the path, two line feeds and the content; and when the service answers with an
  embedding, the entry of its account has the path as id, the first embedding of the
  answer as values, and the path and that same text as metadata.
\<close>

theorem document_and_record_built:
  "embedCalls (events (indexFiles files indexName d False (fresh w))) =
     embedRequests (accounts d False indexName files (collaborators w)) \<and>
   upsertCalls (events (indexFiles files indexName d False (fresh w))) =
     map (\<lambda>entry. (indexName, [entry]))
       (upsertRequests (accounts d False indexName files (collaborators w))) \<and>
   (fs_readFile d path f = (Inr content, f') \<longrightarrow>
    embedRequest (fst (accountOf d False indexName path (f, e, v))) =
      Some \<lparr>model = ''text-embedding-3-small'',
            input = ''File path: '' @ path @ [CHR 0x0A, CHR 0x0A] @ content\<rparr> \<and>
    (embeddings_create (embedder d)
       \<lparr>model = ''text-embedding-3-small'',
        input = ''File path: '' @ path @ [CHR 0x0A, CHR 0x0A] @ content\<rparr> e =
       (Inr response, e') \<and> data response = first # others \<longrightarrow>
     upsertRequest (fst (accountOf d False indexName path (f, e, v))) =
       Some \<lparr>record_id = path, record_values = embedding first,
             metadata =
               \<lparr>md_path = path,
                md_text = ''File path: '' @ path @ [CHR 0x0A, CHR 0x0A] @ content\<rparr>\<rparr>))"
proof -
  let ?request = "\<lparr>model = ''text-embedding-3-small'',
      input = ''File path: '' @ path @ [CHR 0x0A, CHR 0x0A] @ content\<rparr>"
  have request: "embedRequest (fst (accountOf d False indexName path (f, e, v))) = Some ?request"
    if "fs_readFile d path f = (Inr content, f')"
    using that
    by (simp add: accountOf_def Let_def split: prod.splits sum.splits list.splits)
  have entry: "upsertRequest (fst (accountOf d False indexName path (f, e, v))) =
       Some \<lparr>record_id = path, record_values = embedding first,
             metadata =
               \<lparr>md_path = path,
                md_text = ''File path: '' @ path @ [CHR 0x0A, CHR 0x0A] @ content\<rparr>\<rparr>"
    if "fs_readFile d path f = (Inr content, f')"
      "embeddings_create (embedder d) ?request e = (Inr response, e')"
      "data response = first # others"
    using that
    by (simp add: accountOf_def Let_def split: prod.splits sum.splits)
  from indexFiles_accounts(3,4) [of files indexName d False w] request entry
  show ?thesis
    by blast
qed


theorem document_and_record_built_witness:
  "embedCalls (events (indexFiles [''/repo/a.ts'', ''/repo/gone.ts'', ''/repo/b.md''] ''idx''
      exampleDeps False (fresh (exampleWorld emptyStore)))) =
     [\<lparr>model = ''text-embedding-3-small'',
       input = ''File path: /repo/a.ts'' @ [CHR 0x0A, CHR 0x0A] @ ''let a = 1''\<rparr>,
      \<lparr>model = ''text-embedding-3-small'',
       input = ''File path: /repo/b.md'' @ [CHR 0x0A, CHR 0x0A] @ ''# b''\<rparr>] \<and>
   upsertCalls (events (indexFiles [''/repo/a.ts'', ''/repo/gone.ts'', ''/repo/b.md''] ''idx''
      exampleDeps False (fresh (exampleWorld emptyStore)))) =
     [(''idx'',
       [\<lparr>record_id = ''/repo/a.ts'', record_values = [1, 0],
         metadata =
           \<lparr>md_path = ''/repo/a.ts'',
            md_text = ''File path: /repo/a.ts'' @ [CHR 0x0A, CHR 0x0A] @ ''let a = 1''\<rparr>\<rparr>])]"
proof -
  let ?files = "[''/repo/a.ts'', ''/repo/gone.ts'', ''/repo/b.md'']"
  let ?w = "exampleWorld emptyStore :: (unit, unit, store) world"
  have requests: "embedRequests (accounts exampleDeps False ''idx'' ?files (collaborators ?w)) =
     [\<lparr>model = ''text-embedding-3-small'',
       input = ''File path: /repo/a.ts'' @ [CHR 0x0A, CHR 0x0A] @ ''let a = 1''\<rparr>,
      \<lparr>model = ''text-embedding-3-small'',
       input = ''File path: /repo/b.md'' @ [CHR 0x0A, CHR 0x0A] @ ''# b''\<rparr>]"
    by code_simp
  have entries: "upsertRequests (accounts exampleDeps False ''idx'' ?files (collaborators ?w)) =
     [\<lparr>record_id = ''/repo/a.ts'', record_values = [1, 0],
       metadata =
         \<lparr>md_path = ''/repo/a.ts'',
          md_text = ''File path: /repo/a.ts'' @ [CHR 0x0A, CHR 0x0A] @ ''let a = 1''\<rparr>\<rparr>]"
    by code_simp
  from document_and_record_built [of ?files "''idx''" exampleDeps ?w]
  show ?thesis
    unfolding requests entries by simp
qed


subsection \<open>Running twice\<close>

text \<open>The store: \<open>upsertRecord\<close> keeps ids distinct, and changes nothing when the record is there.\<close>

lemma upsertRecord_ids:
  "record_id ` set (upsertRecord r xs) = insert (record_id r) (record_id ` set xs)"
  by (induction xs) auto

lemma upsertRecord_distinct:
  "distinct (map record_id xs) \<Longrightarrow> distinct (map record_id (upsertRecord r xs))"
proof (induction xs)
  case Nil
  then show ?case by simp
next
  case (Cons x xs)
  show ?case
  proof (cases "record_id x = record_id r")
    case True
    with Cons.prems show ?thesis by simp
  next
    case False
    from Cons.prems have "record_id x \<notin> record_id ` set xs"
      by simp
    with False have "record_id x \<notin> record_id ` set (upsertRecord r xs)"
      by (simp add: upsertRecord_ids)
    with False Cons show ?thesis
      by simp
  qed
qed

lemma upsertRecord_mem: "r \<in> set (upsertRecord r xs)"
  by (induction xs) auto

lemma upsertRecord_keeps:
  "y \<in> set xs \<Longrightarrow> record_id y \<noteq> record_id r \<Longrightarrow> y \<in> set (upsertRecord r xs)"
  by (induction xs) auto

lemma upsertRecord_same:
  "distinct (map record_id xs) \<Longrightarrow> r \<in> set xs \<Longrightarrow> upsertRecord r xs = xs"
proof (induction xs)
  case Nil
  then show ?case by simp
next
  case (Cons x xs)
  show ?case
  proof (cases "record_id x = record_id r")
    case True
    with Cons.prems have "r = x"
      by (auto simp: image_iff)
    with True show ?thesis by simp
  next
    case False
    with Cons show ?thesis by auto
  qed
qed

lemma fold_upsert_distinct:
  "distinct (map record_id xs) \<Longrightarrow> distinct (map record_id (fold upsertRecord rs xs))"
  by (induction rs arbitrary: xs) (simp_all add: upsertRecord_distinct)

lemma fold_upsert_keeps:
  "r \<in> set xs \<Longrightarrow> (\<forall>r'\<in>set rs. record_id r' = record_id r \<longrightarrow> r' = r) \<Longrightarrow>
     r \<in> set (fold upsertRecord rs xs)"
proof (induction rs arbitrary: xs)
  case Nil
  then show ?case by simp
next
  case (Cons a rs)
  have "r \<in> set (upsertRecord a xs)"
  proof (cases "record_id a = record_id r")
    case True
    with Cons.prems(2) have "a = r" by simp
    then show ?thesis by (simp add: upsertRecord_mem)
  next
    case False
    with Cons.prems(1) show ?thesis
      by (simp add: upsertRecord_keeps)
  qed
  with Cons.IH [of "upsertRecord a xs"] Cons.prems(2) show ?case
    by simp
qed

lemma fold_upsert_all_mem:
  "coherent rs \<Longrightarrow> r \<in> set rs \<Longrightarrow> r \<in> set (fold upsertRecord rs xs)"
proof (induction rs arbitrary: xs)
  case Nil
  then show ?case by simp
next
  case (Cons a rs)
  from Cons.prems(1) have coh: "coherent rs"
    by (auto simp: coherent_def)
  show ?case
  proof (cases "r = a")
    case True
    have "\<forall>r'\<in>set rs. record_id r' = record_id a \<longrightarrow> r' = a"
      using Cons.prems(1) by (auto simp: coherent_def)
    with fold_upsert_keeps [of a "upsertRecord a xs" rs] True show ?thesis
      by (simp add: upsertRecord_mem)
  next
    case False
    with Cons.prems(2) have "r \<in> set rs" by simp
    with Cons.IH [OF coh] show ?thesis by simp
  qed
qed

lemma fold_upsert_same:
  "distinct (map record_id xs) \<Longrightarrow> \<forall>r\<in>set rs. r \<in> set xs \<Longrightarrow> fold upsertRecord rs xs = xs"
  by (induction rs) (simp_all add: upsertRecord_same)

lemma filter_id_single:
  "distinct (map record_id xs) \<Longrightarrow> r \<in> set xs \<Longrightarrow>
     filter (\<lambda>x. record_id x = record_id r) xs = [r]"
proof (induction xs)
  case Nil
  then show ?case by simp
next
  case (Cons x xs)
  show ?case
  proof (cases "r = x")
    case True
    with Cons.prems(1) have "filter (\<lambda>y. record_id y = record_id r) xs = []"
      by (auto simp: filter_empty_conv image_iff)
    with True show ?thesis by simp
  next
    case False
    with Cons.prems have "r \<in> set xs" "record_id x \<noteq> record_id r"
      by (auto simp: image_iff)
    with Cons show ?thesis by simp
  qed
qed

text \<open>The records a run builds name their files.\<close>

lemma planned_id: "planned rd em path = Inr r \<Longrightarrow> record_id r = path"
  by (auto simp: planned_def indexRecord_def split: sum.splits list.splits)

lemma plannedRecords_mem:
  "r \<in> set (plannedRecords rd em files) =
     (record_id r \<in> set files \<and> planned rd em (record_id r) = Inr r)"
proof (induction files)
  case Nil
  then show ?case by simp
next
  case (Cons x xs)
  then show ?case
    by (cases "planned rd em x") (auto dest: planned_id)
qed

lemma plannedRecords_coherent: "coherent (plannedRecords rd em files)"
  by (auto simp: coherent_def plannedRecords_mem)

lemma acceptedRecords_coherent:
  "coherent (acceptedRecords rej indexName (plannedRecords rd em files))"
  using plannedRecords_coherent [of rd em files]
  by (auto simp: coherent_def acceptedRecords_def)


text \<open>What a run in real mode does to the store and asks of it.\<close>

lemma tryIndexFile_deterministic:
  "pinecone (snd (tryIndexFile (deterministicDeps rd em rej pc) False indexName path w)) =
     (case planned rd em path of
        Inl err \<Rightarrow> pinecone w
      | Inr r \<Rightarrow>
          (if rej indexName [r] = None
           then (pinecone w)(indexName := upsertRecord r (pinecone w indexName))
           else pinecone w))"
  "upsertCalls (events (snd (tryIndexFile (deterministicDeps rd em rej pc) False indexName path w))) =
     upsertCalls (events w) @
     (case planned rd em path of Inl err \<Rightarrow> [] | Inr r \<Rightarrow> [(indexName, [r])])"
  by (auto simp: tryIndexFile_def deterministicDeps_def stateless_def storeUpsert_def planned_def
      emit_def Let_def upsertCalls_append split: sum.splits list.splits option.splits)

lemma indexLoop_deterministic_store:
  "pinecone (snd (indexLoop (deterministicDeps rd em rej pc) False indexName files (n, w))) =
     (pinecone w)(indexName :=
        fold upsertRecord (acceptedRecords rej indexName (plannedRecords rd em files))
          (pinecone w indexName))"
proof (induction files arbitrary: n w)
  case Nil
  show ?case by (simp add: acceptedRecords_def)
next
  case (Cons x xs)
  obtain res w' where t:
    "tryIndexFile (deterministicDeps rd em rej pc) False indexName x w = (res, w')"
    by (cases "tryIndexFile (deterministicDeps rd em rej pc) False indexName x w")
  from tryIndexFile_deterministic(1) [of rd em rej pc indexName x w] t
  have st: "pinecone w' =
     (case planned rd em x of
        Inl err \<Rightarrow> pinecone w
      | Inr r \<Rightarrow>
          (if rej indexName [r] = None
           then (pinecone w)(indexName := upsertRecord r (pinecone w indexName))
           else pinecone w))"
    by simp
  from t st Cons.IH show ?case
    by (cases res; cases "planned rd em x") (auto simp: emit_def acceptedRecords_def)
qed

lemma indexLoop_deterministic_calls:
  "upsertCalls (events (snd (indexLoop (deterministicDeps rd em rej pc) False indexName files (n, w)))) =
     upsertCalls (events w) @ map (\<lambda>r. (indexName, [r])) (plannedRecords rd em files)"
proof (induction files arbitrary: n w)
  case Nil
  show ?case by simp
next
  case (Cons x xs)
  obtain res w' where t:
    "tryIndexFile (deterministicDeps rd em rej pc) False indexName x w = (res, w')"
    by (cases "tryIndexFile (deterministicDeps rd em rej pc) False indexName x w")
  from tryIndexFile_deterministic(2) [of rd em rej pc indexName x w] t
  have up: "upsertCalls (events w') =
     upsertCalls (events w) @
     (case planned rd em x of Inl err \<Rightarrow> [] | Inr r \<Rightarrow> [(indexName, [r])])"
    by simp
  from t up Cons.IH show ?case
    by (cases res; cases "planned rd em x") (auto simp: emit_def upsertCalls_append)
qed

lemma realRun_deterministic:
  "pinecone (realRun files indexName (deterministicDeps rd em rej pc) w) =
     (pinecone w)(indexName :=
        fold upsertRecord (acceptedRecords rej indexName (plannedRecords rd em files))
          (pinecone w indexName))"
  "upsertCalls (events (realRun files indexName (deterministicDeps rd em rej pc) w)) =
     map (\<lambda>r. (indexName, [r])) (plannedRecords rd em files)"
proof -
  let ?d = "deterministicDeps rd em rej pc"
  obtain n w' where run: "indexLoop ?d False indexName files (0, fresh w) = (n, w')"
    by (cases "indexLoop ?d False indexName files (0, fresh w)")
  from indexLoop_deterministic_store [of rd em rej pc indexName files 0 "fresh w"]
    indexLoop_deterministic_calls [of rd em rej pc indexName files 0 "fresh w"] run
  have "pinecone w' = (pinecone w)(indexName :=
        fold upsertRecord (acceptedRecords rej indexName (plannedRecords rd em files))
          (pinecone w indexName))"
    and "upsertCalls (events w') = map (\<lambda>r. (indexName, [r])) (plannedRecords rd em files)"
    by (simp_all add: fresh_def)
  with run show
    "pinecone (realRun files indexName ?d w) =
     (pinecone w)(indexName :=
        fold upsertRecord (acceptedRecords rej indexName (plannedRecords rd em files))
          (pinecone w indexName))"
    "upsertCalls (events (realRun files indexName ?d w)) =
     map (\<lambda>r. (indexName, [r])) (plannedRecords rd em files)"
    by (simp_all add: realRun_def indexFiles_def emit_def upsertCalls_append)
qed

text \<open>
  C9. With deterministic collaborators and a store that replaces on conflict, starting
  from an index without duplicate ids: a second run in real mode over the same files
  leaves the store as the first run left it and makes the same \<open>upsert\<close> calls, with the
  same records; the index still has no two records of one id; and for every file of the
  list whose record is built and accepted, the index holds exactly one record with the
  file's path as id, that record.
\<close>

theorem second_run_replaces:
  "distinct (map record_id (pinecone w indexName)) \<Longrightarrow>
   (let d = deterministicDeps rd em rej pc;
        w1 = realRun files indexName d w;
        w2 = realRun files indexName d w1
    in pinecone w2 = pinecone w1 \<and>
       upsertCalls (events w2) = upsertCalls (events w1) \<and>
       distinct (map record_id (pinecone w2 indexName)) \<and>
       (\<forall>path\<in>set files. \<forall>r.
          planned rd em path = Inr r \<and> rej indexName [r] = None \<longrightarrow>
          filter (\<lambda>x. record_id x = path) (pinecone w2 indexName) = [r]))"
proof -
  assume dist: "distinct (map record_id (pinecone w indexName))"
  let ?d = "deterministicDeps rd em rej pc"
  let ?rs = "acceptedRecords rej indexName (plannedRecords rd em files)"
  let ?w1 = "realRun files indexName ?d w"
  let ?w2 = "realRun files indexName ?d ?w1"
  let ?xs1 = "fold upsertRecord ?rs (pinecone w indexName)"
  have s1: "pinecone ?w1 = (pinecone w)(indexName := ?xs1)"
    by (rule realRun_deterministic(1))
  have d1: "distinct (map record_id ?xs1)"
    using dist by (rule fold_upsert_distinct)
  have m1: "\<forall>r\<in>set ?rs. r \<in> set ?xs1"
    using acceptedRecords_coherent [of rej indexName rd em files]
    by (auto intro: fold_upsert_all_mem)
  have same: "fold upsertRecord ?rs ?xs1 = ?xs1"
    using d1 m1 by (rule fold_upsert_same)
  have s2: "pinecone ?w2 = pinecone ?w1"
    unfolding realRun_deterministic(1) [of files indexName rd em rej pc ?w1]
    by (simp add: s1 same)
  have calls: "upsertCalls (events ?w2) = upsertCalls (events ?w1)"
    by (simp add: realRun_deterministic(2))
  have d2: "distinct (map record_id (pinecone ?w2 indexName))"
    using d1 by (simp add: s2 s1)
  have one: "filter (\<lambda>x. record_id x = path) (pinecone ?w2 indexName) = [r]"
    if "path \<in> set files" "planned rd em path = Inr r" "rej indexName [r] = None" for path r
  proof -
    from that have "r \<in> set ?rs" and id: "record_id r = path"
      by (auto simp: acceptedRecords_def plannedRecords_mem dest: planned_id)
    with m1 have "r \<in> set ?xs1" by blast
    from filter_id_single [OF d1 this] id show ?thesis
      by (simp add: s2 s1)
  qed
  from s2 calls d2 one show ?thesis
    by (simp add: Let_def)
qed


theorem second_run_replaces_witness:
  "pinecone (realRun [''/repo/a.ts'', ''/repo/gone.ts'', ''/repo/b.md'', ''/repo/a.ts''] ''idx''
      exampleDeps (exampleWorld seededStore)) ''idx'' =
     [\<lparr>record_id = ''/repo/a.ts'', record_values = [1, 0],
       metadata = \<lparr>md_path = ''/repo/a.ts'',
         md_text = ''File path: /repo/a.ts'' @ [CHR 0x0A, CHR 0x0A] @ ''let a = 1''\<rparr>\<rparr>,
      \<lparr>record_id = ''/repo/z.ts'', record_values = [1, 1],
       metadata = \<lparr>md_path = ''/repo/z.ts'', md_text = ''z''\<rparr>\<rparr>] \<and>
   pinecone (realRun [''/repo/a.ts'', ''/repo/gone.ts'', ''/repo/b.md'', ''/repo/a.ts''] ''idx''
      exampleDeps
      (realRun [''/repo/a.ts'', ''/repo/gone.ts'', ''/repo/b.md'', ''/repo/a.ts''] ''idx''
         exampleDeps (exampleWorld seededStore))) =
   pinecone (realRun [''/repo/a.ts'', ''/repo/gone.ts'', ''/repo/b.md'', ''/repo/a.ts''] ''idx''
      exampleDeps (exampleWorld seededStore)) \<and>
   upsertCalls (events
     (realRun [''/repo/a.ts'', ''/repo/gone.ts'', ''/repo/b.md'', ''/repo/a.ts''] ''idx''
      exampleDeps
      (realRun [''/repo/a.ts'', ''/repo/gone.ts'', ''/repo/b.md'', ''/repo/a.ts''] ''idx''
         exampleDeps (exampleWorld seededStore)))) =
   upsertCalls (events
     (realRun [''/repo/a.ts'', ''/repo/gone.ts'', ''/repo/b.md'', ''/repo/a.ts''] ''idx''
      exampleDeps (exampleWorld seededStore))) \<and>
   filter (\<lambda>x. record_id x = ''/repo/a.ts'')
     (pinecone (realRun [''/repo/a.ts'', ''/repo/gone.ts'', ''/repo/b.md'', ''/repo/a.ts''] ''idx''
      exampleDeps
      (realRun [''/repo/a.ts'', ''/repo/gone.ts'', ''/repo/b.md'', ''/repo/a.ts''] ''idx''
         exampleDeps (exampleWorld seededStore))) ''idx'') =
     [\<lparr>record_id = ''/repo/a.ts'', record_values = [1, 0],
       metadata = \<lparr>md_path = ''/repo/a.ts'',
         md_text = ''File path: /repo/a.ts'' @ [CHR 0x0A, CHR 0x0A] @ ''let a = 1''\<rparr>\<rparr>]"
proof -
  let ?files = "[''/repo/a.ts'', ''/repo/gone.ts'', ''/repo/b.md'', ''/repo/a.ts'']"
  let ?w = "exampleWorld seededStore :: (unit, unit, store) world"
  let ?a = "\<lparr>record_id = ''/repo/a.ts'', record_values = [1, 0],
       metadata = \<lparr>md_path = ''/repo/a.ts'',
         md_text = ''File path: /repo/a.ts'' @ [CHR 0x0A, CHR 0x0A] @ ''let a = 1''\<rparr>\<rparr>"
  have dist: "distinct (map record_id (pinecone ?w ''idx''))"
    by code_simp
  have pr: "plannedRecords exampleRead exampleEmbed ?files = [?a, ?a]"
    by code_simp
  have first: "pinecone (realRun ?files ''idx'' exampleDeps ?w) ''idx'' =
      [?a, \<lparr>record_id = ''/repo/z.ts'', record_values = [1, 1],
            metadata = \<lparr>md_path = ''/repo/z.ts'', md_text = ''z''\<rparr>\<rparr>]"
    unfolding exampleDeps_def realRun_deterministic(1) pr
    by (simp add: acceptedRecords_def exampleWorld_def seededStore_def)
  have pl: "planned exampleRead exampleEmbed ''/repo/a.ts'' = Inr ?a"
    by code_simp
  from second_run_replaces [OF dist, of exampleRead exampleEmbed "\<lambda>nm records. None" noControl
      ?files]
  have same: "pinecone (realRun ?files ''idx'' exampleDeps (realRun ?files ''idx'' exampleDeps ?w)) =
      pinecone (realRun ?files ''idx'' exampleDeps ?w)"
    and calls: "upsertCalls (events
        (realRun ?files ''idx'' exampleDeps (realRun ?files ''idx'' exampleDeps ?w))) =
      upsertCalls (events (realRun ?files ''idx'' exampleDeps ?w))"
    and one: "\<forall>path\<in>set ?files. \<forall>r.
        planned exampleRead exampleEmbed path = Inr r \<and> None = (None :: error option) \<longrightarrow>
        filter (\<lambda>x. record_id x = path)
          (pinecone (realRun ?files ''idx'' exampleDeps
             (realRun ?files ''idx'' exampleDeps ?w)) ''idx'') = [r]"
    unfolding Let_def exampleDeps_def [symmetric] by blast+
  have mem: "''/repo/a.ts'' \<in> set ?files"
    by simp
  from one mem pl have "filter (\<lambda>x. record_id x = ''/repo/a.ts'')
          (pinecone (realRun ?files ''idx'' exampleDeps
             (realRun ?files ''idx'' exampleDeps ?w)) ''idx'') = [?a]"
    by blast
  with first same calls show ?thesis
    by blast
qed


end
